theory Spec2Isabelle
  imports Complex_Main "HOL-Library.Word" "HOL-Library.Sublist" "HOL-Library.AList"
begin

section \<open>Strings and numbers of the host language\<close>

text \<open>
  A string of the program is a sequence of UTF-16 code units; \<open>length\<close>, \<open>substring\<close>
  and \<open>indexOf\<close> count code units. Literals of the source are written \<open>js ''...''\<close>.
\<close>

type_synonym jschar = "16 word"
type_synonym jsstring = "jschar list"

definition js :: "string \<Rightarrow> jsstring" where
  "js s = map of_char s"

definition hyphen :: jschar where
  "hyphen = 0x2D"

text \<open>
  A \<open>number\<close> of the program. The finite values are modelled by the reals they denote;
  the program only tests them for truthiness, floors them and hands them to
  \<open>substring\<close>, all of which are exact on the values.
\<close>

datatype number = NaN | PosInfinity | NegInfinity | Finite real

text \<open>Truthiness of a possibly missing number: \<open>undefined\<close>, \<open>NaN\<close> and zero are falsy.\<close>

fun truthyNumber :: "number option \<Rightarrow> bool" where
  "truthyNumber None = False"
| "truthyNumber (Some NaN) = False"
| "truthyNumber (Some (Finite r)) = (r \<noteq> 0)"
| "truthyNumber (Some PosInfinity) = True"
| "truthyNumber (Some NegInfinity) = True"

text \<open>\<open>Math.floor\<close>.\<close>

fun mathFloor :: "number \<Rightarrow> number" where
  "mathFloor (Finite r) = Finite (of_int \<lfloor>r\<rfloor>)"
| "mathFloor n = n"

text \<open>Truthiness of a possibly missing string: \<open>undefined\<close> and the empty string are falsy.\<close>

fun truthyString :: "jsstring option \<Rightarrow> bool" where
  "truthyString None = False"
| "truthyString (Some s) = (s \<noteq> [])"

text \<open>\<open>x || d\<close> on strings.\<close>

definition orString :: "jsstring option \<Rightarrow> jsstring \<Rightarrow> jsstring" where
  "orString x d = (case x of None \<Rightarrow> d | Some s \<Rightarrow> if s = [] then d else s)"

text \<open>A value used in a string concatenation or as an attribute value: \<open>undefined\<close> prints as such.\<close>

definition toStr :: "jsstring option \<Rightarrow> jsstring" where
  "toStr x = (case x of None \<Rightarrow> js ''undefined'' | Some s \<Rightarrow> s)"

text \<open>
  The decimal digits of a non-negative integer, as \<open>'-' + count\<close> prints the loop counter.
\<close>

function digits :: "nat \<Rightarrow> jsstring" where
  "digits n = (if n < 10 then [of_nat (48 + n)]
               else digits (n div 10) @ [of_nat (48 + n mod 10)])"
  by pat_completeness auto
termination
  by (relation "measure id") auto

declare digits.simps [simp del]

text \<open>\<open>Array.prototype.indexOf\<close>: the first index of the value, or \<open>-1\<close>.\<close>

fun indexOf :: "'a list \<Rightarrow> 'a \<Rightarrow> int" where
  "indexOf [] x = -1"
| "indexOf (y # ys) x =
     (if y = x then 0
      else (let r = indexOf ys x in if r = -1 then -1 else r + 1))"

text \<open>\<open>String.prototype.indexOf\<close>: the first position where the pattern occurs, or \<open>-1\<close>.\<close>

fun strIndexOf :: "jsstring \<Rightarrow> jsstring \<Rightarrow> int" where
  "strIndexOf [] pat = (if pat = [] then 0 else -1)"
| "strIndexOf (c # cs) pat =
     (if prefix pat (c # cs) then 0
      else (let r = strIndexOf cs pat in if r = -1 then -1 else r + 1))"

text \<open>
  \<open>s.substring(0, end)\<close>: a missing end is the length, \<open>NaN\<close> and negative ends are 0,
  a fractional end is truncated towards zero, and the end is clamped to the length.
\<close>

fun substring0 :: "jsstring \<Rightarrow> number option \<Rightarrow> jsstring" where
  "substring0 s None = s"
| "substring0 s (Some NaN) = []"
| "substring0 s (Some PosInfinity) = s"
| "substring0 s (Some NegInfinity) = []"
| "substring0 s (Some (Finite r)) = (if r \<le> 0 then [] else take (nat \<lfloor>r\<rfloor>) s)"

section \<open>Options\<close>

datatype visibility = Hover | Always | Touch

datatype placement = Right | Left

text \<open>
  \<open>Partial<AnchorOpts>\<close>: every field may be missing. The field \<open>class\<close> of the source
  is \<open>classOpt\<close> here, and \<open>truncate\<close> is \<open>truncateOpt\<close>.
\<close>

record anchorOpts =
  icon :: "jsstring option"
  visible :: "visibility option"
  placement :: "placement option"
  ariaLabel :: "jsstring option"
  classOpt :: "jsstring option"
  base :: "jsstring option"
  truncateOpt :: "number option"
  titleText :: "jsstring option"

text \<open>The object literal \<open>{}\<close>.\<close>

definition emptyOpts :: anchorOpts where
  "emptyOpts = \<lparr> icon = None, visible = None, placement = None, ariaLabel = None,
      classOpt = None, base = None, truncateOpt = None, titleText = None \<rparr>"

definition defaultIcon :: jsstring where
  "defaultIcon = [0xE9CB]"

definition applyRemainingDefaultOptions :: "anchorOpts \<Rightarrow> anchorOpts" where
  "applyRemainingDefaultOptions opts = opts
     \<lparr> icon := Some (orString (icon opts) defaultIcon),
       visible := Some (case visible opts of None \<Rightarrow> Hover | Some v \<Rightarrow> v),
       placement := Some (case placement opts of None \<Rightarrow> Right | Some p \<Rightarrow> p),
       ariaLabel := Some (orString (ariaLabel opts) (js ''Anchor'')),
       classOpt := Some (orString (classOpt opts) []),
       base := Some (orString (base opts) []),
       truncateOpt := Some (case truncateOpt opts of
                           None \<Rightarrow> Finite 64
                         | Some n \<Rightarrow> if truthyNumber (Some n) then mathFloor n else Finite 64),
       titleText := Some (orString (titleText opts) []) \<rparr>"

section \<open>The browser\<close>

text \<open>
  The document is a heap of nodes; a reference is an index into it, and the references
  the program holds are nodes of the heap. A node carries what the program reads and
  writes: whether it is an element (only elements have a \<open>className\<close> and attributes),
  its attributes, its inline style, the value of its \<open>textContent\<close> getter and its
  children. The program never writes text: the anchor it inserts has none, so the text of
  every node stays what it was. The head of the document is the list of its child
  elements, as far as the style injection looks at them.
\<close>

type_synonym ref = nat

record node =
  isElement :: bool
  attributes :: "(string \<times> jsstring) list"
  style :: "(string \<times> string) list"
  textContent :: jsstring
  childNodes :: "ref list"

datatype cssRule = LinkRule | HoverRule | PseudoElContent | AnchorjsLinkFontFace

datatype headEl =
    StyleEl (classList: "jsstring list") (cssRules: "cssRule list")
  | StylesheetLink
  | OtherHeadEl

record document =
  nodes :: "node list"
  head :: "headEl list"

text \<open>
  What the browser provides and the program calls: the selector engine, the decoding of
  character references by a \<open>textarea\<close>, \<open>toLowerCase\<close>, the touch probes and the location.
\<close>

record env =
  validSelector :: "jsstring \<Rightarrow> bool"
  querySelectorAll :: "document \<Rightarrow> jsstring \<Rightarrow> ref list"
  decodeHTML :: "jsstring \<Rightarrow> jsstring"
  toLowerCase :: "jsstring \<Rightarrow> jsstring"
  ontouchstartInWindow :: bool
  documentTouch :: bool
  locationPathname :: jsstring
  locationSearch :: jsstring

datatype error = TypeError | SyntaxError

text \<open>
  What \<open>add\<close> and \<open>remove\<close> are called with: a selector string, an array or node list,
  or a value that is neither.
\<close>

datatype selectorInput = Selector jsstring | NodeArray "ref list" | InvalidInput

definition getAttribute :: "node \<Rightarrow> string \<Rightarrow> jsstring option" where
  "getAttribute n name = map_of (attributes n) name"

definition hasAttribute :: "node \<Rightarrow> string \<Rightarrow> bool" where
  "hasAttribute n name = (getAttribute n name \<noteq> None)"

definition setAttribute :: "string \<Rightarrow> jsstring \<Rightarrow> node \<Rightarrow> node" where
  "setAttribute name v n = n\<lparr>attributes := AList.update name v (attributes n)\<rparr>"

definition setStyle :: "string \<Rightarrow> string \<Rightarrow> node \<Rightarrow> node" where
  "setStyle name v n = n\<lparr>style := AList.update name v (style n)\<rparr>"

text \<open>The \<open>className\<close> property: the class attribute of an element, \<open>undefined\<close> on other nodes.\<close>

definition className :: "node \<Rightarrow> jsstring option" where
  "className n =
     (if isElement n
      then Some (case getAttribute n ''class'' of None \<Rightarrow> [] | Some c \<Rightarrow> c)
      else None)"

text \<open>The \<open>id\<close> property: the id attribute, or the empty string.\<close>

definition idProperty :: "node \<Rightarrow> jsstring" where
  "idProperty n = (case getAttribute n ''id'' of None \<Rightarrow> [] | Some v \<Rightarrow> v)"

definition firstChild :: "document \<Rightarrow> ref \<Rightarrow> ref option" where
  "firstChild doc el = (case childNodes (nodes doc ! el) of [] \<Rightarrow> None | c # cs \<Rightarrow> Some c)"

definition lastChild :: "document \<Rightarrow> ref \<Rightarrow> ref option" where
  "lastChild doc el =
     (case childNodes (nodes doc ! el) of [] \<Rightarrow> None | c # cs \<Rightarrow> Some (last (c # cs)))"

section \<open>The manager\<close>

record Anchor =
  opts :: anchorOpts
  els :: "ref list"

text \<open>
  The constructor. Called without an argument, its parameter defaults to
  \<open>{icon: defaultIcon, visible: 'always'}\<close>.
\<close>

definition newAnchor :: "anchorOpts option \<Rightarrow> Anchor" where
  "newAnchor arg =
     (let opts0 = (case arg of
                     None \<Rightarrow> emptyOpts\<lparr>icon := Some defaultIcon, visible := Some Always\<rparr>
                   | Some o1 \<Rightarrow> o1)
      in \<lparr> opts = applyRemainingDefaultOptions opts0, els = [] \<rparr>)"

definition isTouchDevice :: "env \<Rightarrow> bool" where
  "isTouchDevice env = (ontouchstartInWindow env \<or> documentTouch env)"

text \<open>
  \<open>hasAnchorJSLink\<close> reads \<open>className\<close> of the first and of the last child before it
  tests whether there is one; on a node without children the read is a \<open>TypeError\<close>.
\<close>

definition anchorMarker :: jsstring where
  "anchorMarker = js '' anchorjs-link ''"

definition hasAnchorJSLink :: "document \<Rightarrow> ref \<Rightarrow> error + bool" where
  "hasAnchorJSLink doc el =
     (case firstChild doc el of
        None \<Rightarrow> Inl TypeError
      | Some f \<Rightarrow>
          (case lastChild doc el of
             None \<Rightarrow> Inl TypeError
           | Some l \<Rightarrow>
               (let firstClass = className (nodes doc ! f);
                    lastClass = className (nodes doc ! l);
                    hasLeftAnchor =
                      (strIndexOf (js '' '' @ toStr firstClass @ js '' '') anchorMarker > -1);
                    hasRightAnchor =
                      (strIndexOf (js '' '' @ toStr lastClass @ js '' '') anchorMarker > -1)
                in Inr (hasLeftAnchor \<or> hasRightAnchor))))"

subsection \<open>urlify\<close>

text \<open>\<open>String.prototype.trim\<close> removes white space and line terminators at both ends.\<close>

definition isTrimChar :: "jschar \<Rightarrow> bool" where
  "isTrimChar c =
     (c \<in> set [0x09, 0x0A, 0x0B, 0x0C, 0x0D, 0x20, 0xA0, 0x1680, 0x2000, 0x2001, 0x2002,
               0x2003, 0x2004, 0x2005, 0x2006, 0x2007, 0x2008, 0x2009, 0x200A, 0x2028,
               0x2029, 0x202F, 0x205F, 0x3000, 0xFEFF])"

definition trim :: "jsstring \<Rightarrow> jsstring" where
  "trim s = rev (dropWhile isTrimChar (rev (dropWhile isTrimChar s)))"

definition apostrophe :: jschar where
  "apostrophe = 0x27"

text \<open>
  The character class \<open>nonsafeChars\<close>, in the order of the source:
  \<open>& + $ , : ; = ? @ " # { } | ^ ~ [ ` % ! ' < > ] . / ( ) * \\<close> with the space,
  newline, tab, backspace, vertical tab and the non-breaking space.
\<close>

definition nonsafeChars :: "jschar list" where
  "nonsafeChars =
     [0x26, 0x20, 0x2B, 0x24, 0x2C, 0x3A, 0x3B, 0x3D, 0x3F, 0x40, 0x22, 0x23, 0x7B, 0x7D,
      0x7C, 0x5E, 0x7E, 0x5B, 0x60, 0x25, 0x21, 0x27, 0x3C, 0x3E, 0x5D, 0x2E, 0x2F, 0x28,
      0x29, 0x2A, 0x5C, 0x0A, 0x09, 0x08, 0x0B, 0xA0]"

definition replaceNonsafe :: "jsstring \<Rightarrow> jsstring" where
  "replaceNonsafe s = map (\<lambda>c. if c \<in> set nonsafeChars then hyphen else c) s"

text \<open>\<open>replace(/-{2,}/g, '-')\<close>: a run of two or more hyphens becomes one hyphen.\<close>

fun collapseHyphens :: "jsstring \<Rightarrow> jsstring" where
  "collapseHyphens (a # b # cs) =
     (if a = hyphen \<and> b = hyphen then collapseHyphens (b # cs)
      else a # collapseHyphens (b # cs))"
| "collapseHyphens cs = cs"

definition isLineTerminator :: "jschar \<Rightarrow> bool" where
  "isLineTerminator c = (c \<in> set [0x0A, 0x0D, 0x2028, 0x2029])"

text \<open>
  \<open>replace(/^-+|-+$/gm, '')\<close>: with the \<open>m\<close> flag a line starts at the start of the string
  and after a line terminator, and ends at the end of the string and before a line
  terminator. A maximal run of hyphens is deleted when it starts a line or ends one.
  The flag says whether the position read is the start of a line.
\<close>

function trimHyphens :: "bool \<Rightarrow> jsstring \<Rightarrow> jsstring" where
  "trimHyphens atStart [] = []"
| "trimHyphens atStart (c # cs) =
     (if c = hyphen then
        (let run = c # takeWhile (\<lambda>x. x = hyphen) cs;
             rest = dropWhile (\<lambda>x. x = hyphen) cs;
             atEnd = (case rest of [] \<Rightarrow> True | d # ds \<Rightarrow> isLineTerminator d)
         in (if atStart \<or> atEnd then [] else run) @ trimHyphens False rest)
      else c # trimHyphens (isLineTerminator c) cs)"
  by pat_completeness auto
termination
  by (relation "measure (\<lambda>(b, s). length s)") (auto simp: le_imp_less_Suc length_dropWhile_le)

text \<open>
  The first steps of \<open>urlify\<close>, up to the truncation: decode, trim, delete the
  apostrophes, replace the unsafe characters by hyphens, collapse the runs of hyphens.
\<close>

definition hyphenate :: "env \<Rightarrow> jsstring \<Rightarrow> jsstring" where
  "hyphenate env text0 =
     collapseHyphens
       (replaceNonsafe
         (filter (\<lambda>c. c \<noteq> apostrophe) (trim (decodeHTML env text0))))"

text \<open>
  \<open>urlify\<close> returns the slug and the options, which it defaults again when \<open>truncate\<close>
  is falsy.
\<close>

definition urlify :: "env \<Rightarrow> anchorOpts \<Rightarrow> jsstring \<Rightarrow> anchorOpts \<times> jsstring" where
  "urlify env opts0 text0 =
     (let opts1 = (if \<not> truthyNumber (truncateOpt opts0)
                   then applyRemainingDefaultOptions opts0 else opts0)
      in (opts1,
          toLowerCase env
            (trimHyphens True
              (substring0 (hyphenate env text0) (truncateOpt opts1)))))"

subsection \<open>add\<close>

definition getElements :: "env \<Rightarrow> document \<Rightarrow> selectorInput \<Rightarrow> error + ref list" where
  "getElements env doc input =
     (case input of
        Selector s \<Rightarrow>
          (if validSelector env s then Inr (querySelectorAll env doc s) else Inl SyntaxError)
      | NodeArray ns \<Rightarrow> Inr ns
      | InvalidInput \<Rightarrow> Inl TypeError)"

definition isAnchorjsStyle :: "headEl \<Rightarrow> bool" where
  "isAnchorjsStyle h =
     (case h of StyleEl cl rs \<Rightarrow> js ''anchorjs'' \<in> set cl | StylesheetLink \<Rightarrow> False
      | OtherHeadEl \<Rightarrow> False)"

definition isStyleOrStylesheet :: "headEl \<Rightarrow> bool" where
  "isStyleOrStylesheet h =
     (case h of StyleEl cl rs \<Rightarrow> True | StylesheetLink \<Rightarrow> True | OtherHeadEl \<Rightarrow> False)"

text \<open>
  \<open>_addBaselineStyles\<close>: nothing when the head has a \<open>style.anchorjs\<close> already; otherwise
  the new style element goes before the first style or stylesheet of the head (at the
  end when there is none) and receives the four rules in order.
\<close>

definition addBaselineStyles :: "document \<Rightarrow> document" where
  "addBaselineStyles doc =
     (if list_ex isAnchorjsStyle (head doc) then doc
      else doc\<lparr>head :=
             takeWhile (\<lambda>h. \<not> isStyleOrStylesheet h) (head doc)
             @ [StyleEl [js ''anchorjs'']
                  [LinkRule, HoverRule, PseudoElContent, AnchorjsLinkFontFace]]
             @ dropWhile (\<lambda>h. \<not> isStyleOrStylesheet h) (head doc)\<rparr>)"

text \<open>
  The \<open>do ... while\<close> of \<open>add\<close>. \<open>index\<close> is \<open>undefined\<close> (\<open>None\<close>) on entry, so the first
  candidate is the slug itself; \<open>count\<close> is incremented before the first suffix is built.
  The counter stays below the length of the list plus two, far below the integers a
  number of the program represents exactly, so it is a natural number here.
\<close>

definition maxLength :: "jsstring list \<Rightarrow> nat" where
  "maxLength xs = foldr (\<lambda>s m. max (length s) m) xs 0"

function addDoWhile ::
  "jsstring list \<Rightarrow> jsstring \<Rightarrow> int option \<Rightarrow> nat \<Rightarrow> jsstring \<Rightarrow> jsstring" where
  "addDoWhile idList tidyText index count newTidyText =
     (let newTidyText1 =
            (if index \<noteq> None then tidyText @ js ''-'' @ digits count else newTidyText);
          index1 = indexOf idList newTidyText1;
          count1 = count + 1
      in if index1 \<noteq> -1
         then addDoWhile idList tidyText (Some index1) count1 newTidyText1
         else newTidyText1)"
  by pat_completeness auto

text \<open>
  The loop ends: a candidate with a suffix is at least as long as the digits of the
  counter, and the registry holds no string longer than its longest.
\<close>

lemma digits_bound: "n < 10 ^ length (digits n)"
proof (induction n rule: digits.induct)
  case (1 n)
  show ?case
  proof (cases "n < 10")
    case True
    then show ?thesis by (simp add: digits.simps [of n])
  next
    case False
    with 1 have "n div 10 < 10 ^ length (digits (n div 10))" by simp
    then have "n < 10 * 10 ^ length (digits (n div 10))" by simp
    with False show ?thesis by (simp add: digits.simps [of n])
  qed
qed

lemma maxLength_ge: "x \<in> set xs \<Longrightarrow> length x \<le> maxLength xs"
  by (induction xs) (auto simp: maxLength_def)

lemma indexOf_ge: "- 1 \<le> indexOf xs x"
  by (induction xs) (auto simp: Let_def)

lemma indexOf_absent: "indexOf xs x = - 1 \<longleftrightarrow> x \<notin> set xs"
proof (induction xs)
  case Nil
  show ?case by simp
next
  case (Cons y ys)
  have "indexOf ys x + 1 \<noteq> - 1"
    using indexOf_ge [of ys x] by simp
  with Cons show ?case by (simp add: Let_def)
qed

lemma suffixed_in_registry_bound:
  assumes "tidyText @ sep @ digits count \<in> set idList"
  shows "count < 10 ^ maxLength idList"
proof -
  have "length (digits count) \<le> length (tidyText @ sep @ digits count)" by simp
  also have "\<dots> \<le> maxLength idList" using assms by (rule maxLength_ge)
  finally have "(10::nat) ^ length (digits count) \<le> 10 ^ maxLength idList"
    by (simp add: power_increasing)
  with digits_bound [of count] show ?thesis by (rule less_le_trans)
qed

termination addDoWhile
proof (relation "measure (\<lambda>(idList, tidyText, index, count, newTidyText).
          (if index = None then 1 else 0) + (10 ^ maxLength idList - count))")
  show "wf (measure (\<lambda>(idList, tidyText, index, count, newTidyText).
          (if index = None then 1 else 0) + (10 ^ maxLength idList - count)))"
    by simp
next
  fix idList :: "jsstring list" and tidyText newTidyText x :: jsstring
    and index :: "int option" and count xb :: nat and xa :: int
  assume x: "x = (if index \<noteq> None then tidyText @ js ''-'' @ digits count else newTidyText)"
    and xa: "xa = indexOf idList x" and xb: "xb = count + 1" and found: "xa \<noteq> - 1"
  from xa found have mem: "x \<in> set idList" by (simp add: indexOf_absent)
  show "((idList, tidyText, Some xa, xb, x), (idList, tidyText, index, count, newTidyText))
        \<in> measure (\<lambda>(idList, tidyText, index, count, newTidyText).
          (if index = None then 1 else 0) + (10 ^ maxLength idList - count))"
  proof (cases index)
    case None
    then show ?thesis using xb by simp
  next
    case (Some i)
    with x mem have "count < 10 ^ maxLength idList"
      by (simp add: suffixed_in_registry_bound)
    with Some xb show ?thesis by simp
  qed
qed

declare addDoWhile.simps [simp del]

text \<open>
  What the loop of \<open>add\<close> carries from one element to the next: the manager (\<open>urlify\<close>
  may default its options again), the list of known ids, the indexes to drop and the
  document.
\<close>

record loopState =
  stThis :: Anchor
  stIdList :: "jsstring list"
  stIndexesToDrop :: "nat list"
  stDocument :: document

definition updateNode :: "ref \<Rightarrow> (node \<Rightarrow> node) \<Rightarrow> document \<Rightarrow> document" where
  "updateNode r f doc = doc\<lparr>nodes := (nodes doc)[r := f (nodes doc ! r)]\<rparr>"

text \<open>
  The identifier of an element: its \<open>id\<close> attribute, else its \<open>data-anchor-id\<close> attribute,
  else the slug of its text, suffixed until it is not in the list, pushed on the list and
  set as the \<open>id\<close> attribute.
\<close>

definition addElementID :: "env \<Rightarrow> ref \<Rightarrow> loopState \<Rightarrow> jsstring \<times> loopState" where
  "addElementID env el st =
     (let n = nodes (stDocument st) ! el in
      case getAttribute n ''id'' of
        Some v \<Rightarrow> (v, st)
      | None \<Rightarrow>
          (case getAttribute n ''data-anchor-id'' of
             Some v \<Rightarrow> (v, st)
           | None \<Rightarrow>
               (let (opts1, tidyText) = urlify env (opts (stThis st)) (textContent n);
                    newTidyText = addDoWhile (stIdList st) tidyText None 0 tidyText
                in (newTidyText,
                    st\<lparr> stThis := (stThis st)\<lparr>opts := opts1\<rparr>,
                        stIdList := stIdList st @ [newTidyText],
                        stDocument :=
                          updateNode el (setAttribute ''id'' newTidyText) (stDocument st) \<rparr>))))"

text \<open>The anchor element, as the options say, before it is inserted.\<close>

definition addAnchorNode :: "env \<Rightarrow> anchorOpts \<Rightarrow> document \<Rightarrow> jsstring \<Rightarrow> node" where
  "addAnchorNode env o1 doc elementID =
     (let a0 = \<lparr> isElement = True, attributes = [], style = [], textContent = [],
                 childNodes = [] \<rparr>;
          a1 = setAttribute ''class'' (js ''anchorjs-link '' @ toStr (classOpt o1)) a0;
          a2 = setAttribute ''aria-label'' (toStr (ariaLabel o1)) a1;
          a3 = setAttribute ''data-anchorjs-icon'' (toStr (icon o1)) a2;
          a4 = (if truthyString (titleText o1)
                then setAttribute ''title'' (toStr (titleText o1)) a3 else a3);
          hrefBase0 = (if querySelectorAll env doc (js ''base'') \<noteq> []
                       then locationPathname env @ locationSearch env else []);
          hrefBase = orString (base o1) hrefBase0;
          a5 = setAttribute ''href'' (hrefBase @ js ''#'' @ elementID) a4;
          a6 = (if visible o1 = Some Always then setStyle ''opacity'' ''1'' a5 else a5);
          a7 = (if visible o1 = Some Touch \<and> isTouchDevice env
                then setStyle ''opacity'' ''1'' a6 else a6);
          a8 = (if icon o1 = Some defaultIcon
                then (let b = setStyle ''font'' ''1em/1 anchorjs-icons'' a7
                      in if placement o1 = Some Left
                         then setStyle ''lineHeight'' ''inherit'' b else b)
                else a7)
      in if placement o1 = Some Left
         then setStyle ''paddingLeft'' ''.25em''
                (setStyle ''paddingRight'' ''.25em''
                  (setStyle ''marginLeft'' ''-1.25em''
                    (setStyle ''position'' ''absolute'' a8)))
         else setStyle ''paddingLeft'' ''.1875em''
                (setStyle ''paddingRight'' ''.1875em''
                  (setStyle ''marginLeft'' ''.1875em'' a8)))"

text \<open>
  \<open>insertBefore(anchor, firstChild)\<close> for the placement \<open>left\<close>, \<open>appendChild(anchor)\<close>
  otherwise. The new node takes the next free reference.
\<close>

definition insertAnchor :: "anchorOpts \<Rightarrow> ref \<Rightarrow> node \<Rightarrow> document \<Rightarrow> document" where
  "insertAnchor o1 el a doc =
     (let r = length (nodes doc);
          doc1 = doc\<lparr>nodes := nodes doc @ [a]\<rparr>
      in updateNode el
           (\<lambda>n. n\<lparr>childNodes :=
                    (if placement o1 = Some Left then r # childNodes n
                     else childNodes n @ [r])\<rparr>)
           doc1)"

text \<open>
  One turn of the loop, for the element \<open>el\<close> at index \<open>i\<close>. Reading an attribute of a node
  that is not an element is a \<open>TypeError\<close>. The \<open>console.log\<close> calls have no effect on
  the state.
\<close>

definition addStep :: "env \<Rightarrow> ref \<Rightarrow> nat \<Rightarrow> loopState \<Rightarrow> error option \<times> loopState" where
  "addStep env el i st =
     (case hasAnchorJSLink (stDocument st) el of
        Inl e \<Rightarrow> (Some e, st)
      | Inr anchored \<Rightarrow>
          if anchored then (None, st\<lparr>stIndexesToDrop := stIndexesToDrop st @ [i]\<rparr>)
          else if \<not> isElement (nodes (stDocument st) ! el) then (Some TypeError, st)
          else
            (let (elementID, st1) = addElementID env el st;
                 a = addAnchorNode env (opts (stThis st1)) (stDocument st1) elementID
             in (None,
                 st1\<lparr>stDocument :=
                       insertAnchor (opts (stThis st1)) el a (stDocument st1)\<rparr>)))"

fun addLoop :: "env \<Rightarrow> ref list \<Rightarrow> nat \<Rightarrow> loopState \<Rightarrow> error option \<times> loopState" where
  "addLoop env [] i st = (None, st)"
| "addLoop env (el # elements) i st =
     (case addStep env el i st of
        (Some e, st1) \<Rightarrow> (Some e, st1)
      | (None, st1) \<Rightarrow> addLoop env elements (Suc i) st1)"

text \<open>
  The second loop: \<open>elements.splice(indexesToDrop[i] - i, 1)\<close>. The indexes were pushed in
  increasing order, so the difference is not negative.
\<close>

fun spliceDropped :: "nat list \<Rightarrow> nat \<Rightarrow> ref list \<Rightarrow> ref list" where
  "spliceDropped [] i elements = elements"
| "spliceDropped (d # ds) i elements =
     spliceDropped ds (Suc i) (take (d - i) elements @ drop (Suc (d - i)) elements)"

definition defaultSelector :: jsstring where
  "defaultSelector = js ''h2, h3, h4, h5, h6''"

text \<open>\<open>!selector\<close>: a missing selector and the empty string are falsy.\<close>

fun falsySelector :: "selectorInput option \<Rightarrow> bool" where
  "falsySelector None = True"
| "falsySelector (Some (Selector s)) = (s = [])"
| "falsySelector (Some (NodeArray ns)) = False"
| "falsySelector (Some InvalidInput) = False"

text \<open>The selector \<open>add\<close> resolves: the default one when it was given none.\<close>

definition effectiveSelector :: "selectorInput option \<Rightarrow> selectorInput" where
  "effectiveSelector selector =
     (case selector of
        None \<Rightarrow> Selector defaultSelector
      | Some s \<Rightarrow> if falsySelector (Some s) then Selector defaultSelector else s)"

text \<open>The \<open>id\<close> of every element of the document that has the attribute.\<close>

definition existingIds :: "env \<Rightarrow> document \<Rightarrow> jsstring list" where
  "existingIds env doc =
     map (\<lambda>r. idProperty (nodes doc ! r)) (querySelectorAll env doc (js ''[id]''))"

text \<open>
  \<open>add\<close> returns the error it threw, if any, the manager and the document. What was done
  before a throw stays done.
\<close>

definition add ::
  "env \<Rightarrow> Anchor \<Rightarrow> selectorInput option \<Rightarrow> document \<Rightarrow> error option \<times> Anchor \<times> document" where
  "add env this selector doc =
     (let this1 = this\<lparr>opts := applyRemainingDefaultOptions (opts this)\<rparr>
      in case getElements env doc (effectiveSelector selector) of
           Inl e \<Rightarrow> (Some e, this1, doc)
         | Inr elements \<Rightarrow>
             if length elements = 0 then (None, this1, doc)
             else
               (let doc1 = addBaselineStyles doc;
                    st0 = \<lparr> stThis = this1, stIdList = existingIds env doc1,
                            stIndexesToDrop = [], stDocument = doc1 \<rparr>
                in case addLoop env elements 0 st0 of
                     (Some e, st) \<Rightarrow> (Some e, stThis st, stDocument st)
                   | (None, st) \<Rightarrow>
                       (None,
                        (stThis st)\<lparr>els := els (stThis st)
                                        @ spliceDropped (stIndexesToDrop st) 0 elements\<rparr>,
                        stDocument st)))"

text \<open>The function \<open>anchor\<close>: its parameter defaults to \<open>{}\<close>.\<close>

definition anchor ::
  "env \<Rightarrow> anchorOpts option \<Rightarrow> document \<Rightarrow> error option \<times> Anchor \<times> document" where
  "anchor env arg doc =
     (let a = newAnchor (Some (case arg of None \<Rightarrow> emptyOpts | Some o1 \<Rightarrow> o1))
      in add env a None doc)"

section \<open>Sample browser and documents\<close>

text \<open>
  A browser for the examples: every selector is well formed, \<open>[id]\<close> selects the elements
  with an \<open>id\<close> attribute and any other selector selects nothing, no character reference
  is decoded, and \<open>toLowerCase\<close> maps the letters A to Z.
\<close>

definition asciiLower :: "jsstring \<Rightarrow> jsstring" where
  "asciiLower s = map (\<lambda>c. if 0x41 \<le> c \<and> c \<le> 0x5A then c + 0x20 else c) s"

definition sampleEnv :: env where
  "sampleEnv =
     \<lparr> validSelector = (\<lambda>s. True),
       querySelectorAll =
         (\<lambda>doc s. if s = js ''[id]''
                   then filter (\<lambda>r. isElement (nodes doc ! r) \<and> hasAttribute (nodes doc ! r) ''id'')
                          [0..<length (nodes doc)]
                   else []),
       decodeHTML = (\<lambda>s. s),
       toLowerCase = asciiLower,
       ontouchstartInWindow = False,
       documentTouch = False,
       locationPathname = js ''/'',
       locationSearch = [] \<rparr>"

definition textNode :: "jsstring \<Rightarrow> node" where
  "textNode t =
     \<lparr> isElement = False, attributes = [], style = [], textContent = t, childNodes = [] \<rparr>"

definition element :: "(string \<times> jsstring) list \<Rightarrow> jsstring \<Rightarrow> ref list \<Rightarrow> node" where
  "element as t cs =
     \<lparr> isElement = True, attributes = as, style = [], textContent = t, childNodes = cs \<rparr>"

text \<open>
  Two elements with the ids \<open>intro\<close> and \<open>intro-0\<close>, and a heading (node 4) with the text
  \<open>Intro\<close> and no id.
\<close>

definition introDoc :: document where
  "introDoc =
     \<lparr> nodes = [element [(''id'', js ''intro'')] (js ''A'') [1], textNode (js ''A''),
                element [(''id'', js ''intro-0'')] (js ''B'') [3], textNode (js ''B''),
                element [] (js ''Intro'') [5], textNode (js ''Intro'')],
       head = [] \<rparr>"

text \<open>One element with the id \<open>intro\<close>, and a heading (node 2) with the text \<open>Intro\<close>.\<close>

definition collideDoc :: document where
  "collideDoc =
     \<lparr> nodes = [element [(''id'', js ''intro'')] (js ''A'') [1], textNode (js ''A''),
                element [] (js ''Intro'') [3], textNode (js ''Intro'')],
       head = [] \<rparr>"

text \<open>A heading without children, so without text: \<open><h2></h2>\<close>.\<close>

definition emptyHeadingDoc :: document where
  "emptyHeadingDoc = \<lparr> nodes = [element [] [] []], head = [] \<rparr>"

text \<open>The state of the loop of \<open>add\<close> at its start, for a fresh manager.\<close>

definition scanState :: "document \<Rightarrow> loopState" where
  "scanState doc =
     \<lparr> stThis = newAnchor None, stIdList = existingIds sampleEnv doc, stIndexesToDrop = [],
       stDocument = doc \<rparr>"

text \<open>
  Three elements: one with the id \<open>foo\<close>, a heading (node 2) with the same id, and a
  heading (node 4) with the override \<open>data-anchor-id="foo"\<close> and no id.
\<close>

definition reuseDoc :: document where
  "reuseDoc =
     \<lparr> nodes = [element [(''id'', js ''foo'')] (js ''A'') [1], textNode (js ''A''),
                element [(''id'', js ''foo'')] (js ''Title'') [3], textNode (js ''Title''),
                element [(''data-anchor-id'', js ''foo'')] (js ''Other'') [5],
                textNode (js ''Other'')],
       head = [] \<rparr>"


text \<open>A heading with the id \<open>foo\<close> and no children: \<open><h2 id="foo"></h2>\<close>.\<close>

definition childlessIdDoc :: document where
  "childlessIdDoc = \<lparr> nodes = [element [(''id'', js ''foo'')] [] []], head = [] \<rparr>"

text \<open>
  Options with \<open>truncate\<close> zero, an icon and a visibility of their own, and an empty
  \<open>ariaLabel\<close>.
\<close>

definition partOpts :: anchorOpts where
  "partOpts = emptyOpts\<lparr> icon := Some [0x23], visible := Some Touch, ariaLabel := Some [],
                          truncateOpt := Some (Finite 0) \<rparr>"

section \<open>The already-anchored test\<close>

lemma hasAnchorJSLink_childless:
  "childNodes (nodes doc ! el) = [] \<Longrightarrow> hasAnchorJSLink doc el = Inl TypeError"
  by (simp add: hasAnchorJSLink_def firstChild_def)

text \<open>
  C5. On an element without children \<open>hasAnchorJSLink\<close> does not return \<open>false\<close>: the
  \<open>className\<close> of the missing first child is read before the test for a first child, and
  the read throws a \<open>TypeError\<close>.
\<close>

theorem hasAnchorJSLink_throws_without_children:
  "hasAnchorJSLink emptyHeadingDoc 0 = Inl TypeError"
  by code_simp

text \<open>
  C6. A heading without children has the empty text content; \<open>add\<close> on it throws the
  \<open>TypeError\<close> of \<open>hasAnchorJSLink\<close> before any slug is generated, and no node of the
  document is changed.
\<close>

theorem add_throws_on_empty_heading:
  "textContent (nodes emptyHeadingDoc ! 0) = []
   \<and> fst (add sampleEnv (newAnchor None) (Some (NodeArray [0])) emptyHeadingDoc) = Some TypeError
   \<and> nodes (snd (snd (add sampleEnv (newAnchor None) (Some (NodeArray [0])) emptyHeadingDoc)))
       = nodes emptyHeadingDoc"
  by code_simp

section \<open>Options and their defaults\<close>

lemma applyRemainingDefaultOptions_visible:
  "visible (applyRemainingDefaultOptions o1) = Some (case visible o1 of None \<Rightarrow> Hover | Some v \<Rightarrow> v)"
  by (simp add: applyRemainingDefaultOptions_def)

lemma urlify_visible:
  "visible o1 = Some v \<Longrightarrow> visible (fst (urlify env o1 t)) = Some v"
  by (simp add: urlify_def Let_def applyRemainingDefaultOptions_visible)

lemma addElementID_visible:
  "visible (opts (stThis st)) = Some v \<Longrightarrow>
   visible (opts (stThis (snd (addElementID env el st)))) = Some v"
  using urlify_visible [of "opts (stThis st)" v env "textContent (nodes (stDocument st) ! el)"]
  by (auto simp: addElementID_def Let_def split: option.splits prod.splits)

lemma addStep_visible:
  "visible (opts (stThis st)) = Some v \<Longrightarrow>
   visible (opts (stThis (snd (addStep env el i st)))) = Some v"
  using addElementID_visible [of st v env el]
  by (auto simp: addStep_def Let_def split: sum.splits prod.splits)

lemma addLoop_visible:
  "visible (opts (stThis st)) = Some v \<Longrightarrow>
   visible (opts (stThis (snd (addLoop env es i st)))) = Some v"
proof (induction es arbitrary: i st)
  case Nil
  then show ?case by simp
next
  case (Cons el es)
  from Cons.prems have v1: "visible (opts (stThis (snd (addStep env el i st)))) = Some v"
    by (rule addStep_visible)
  show ?case
  proof (cases "addStep env el i st")
    case (Pair r st1)
    with v1 have "visible (opts (stThis st1)) = Some v" by simp
    with Pair Cons.IH [of st1 "Suc i"] show ?thesis
      by (cases r) simp_all
  qed
qed

lemma add_visible:
  assumes "visible (opts this) = Some v"
  shows "visible (opts (fst (snd (add env this sel doc)))) = Some v"
proof -
  let ?this1 = "this\<lparr>opts := applyRemainingDefaultOptions (opts this)\<rparr>"
  have v1: "visible (opts ?this1) = Some v"
    using assms by (simp add: applyRemainingDefaultOptions_visible)
  show ?thesis
  proof (cases "getElements env doc (effectiveSelector sel)")
    case (Inl e)
    with v1 show ?thesis by (simp add: add_def)
  next
    case (Inr elements)
    show ?thesis
    proof (cases "elements = []")
      case True
      with Inr v1 show ?thesis by (simp add: add_def)
    next
      case False
      let ?st0 = "\<lparr> stThis = ?this1, stIdList = existingIds env (addBaselineStyles doc),
                      stIndexesToDrop = [], stDocument = addBaselineStyles doc \<rparr>"
      have "visible (opts (stThis (snd (addLoop env elements 0 ?st0)))) = Some v"
        using v1 by (intro addLoop_visible) simp
      with Inr False show ?thesis
        by (cases "addLoop env elements 0 ?st0") (auto simp: add_def Let_def split: option.splits)
    qed
  qed
qed

text \<open>
  C9. The default of \<open>visible\<close> depends on how the manager is made: the constructor
  called without an argument gives \<open>always\<close>, and \<open>add\<close> keeps it; the function \<open>anchor\<close>
  called without options gives \<open>hover\<close>, and so does the constructor called with options
  that leave \<open>visible\<close> out, also after \<open>add\<close>.
\<close>

theorem default_visible_depends_on_construction:
  "visible (opts (newAnchor None)) = Some Always
   \<and> visible (opts (fst (snd (add env (newAnchor None) selector doc)))) = Some Always
   \<and> visible (opts (fst (snd (anchor env None doc)))) = Some Hover
   \<and> (visible o1 = None \<longrightarrow>
        visible (opts (newAnchor (Some o1))) = Some Hover
        \<and> visible (opts (fst (snd (add env (newAnchor (Some o1)) selector doc)))) = Some Hover)"
proof -
  have a: "visible (opts (newAnchor None)) = Some Always"
    by (simp add: newAnchor_def emptyOpts_def applyRemainingDefaultOptions_visible)
  have h: "visible (opts (newAnchor (Some o2))) = Some Hover" if "visible o2 = None" for o2
    using that by (simp add: newAnchor_def applyRemainingDefaultOptions_visible)
  have e: "visible emptyOpts = None" by (simp add: emptyOpts_def)
  from a h e show ?thesis
    by (simp add: add_visible anchor_def)
qed

theorem default_visible_witness:
  "visible emptyOpts = None
   \<and> visible (opts (newAnchor (Some emptyOpts))) = Some Hover
   \<and> visible (opts (fst (snd (add sampleEnv (newAnchor (Some emptyOpts)) None introDoc)))) = Some Hover
   \<and> visible (opts (newAnchor None)) = Some Always
   \<and> visible (opts (fst (snd (anchor sampleEnv None introDoc)))) = Some Hover"
  using default_visible_depends_on_construction [of sampleEnv None introDoc emptyOpts]
  by (simp add: emptyOpts_def)

text \<open>
  C10. When \<open>truncate\<close> is missing or zero, \<open>urlify\<close> changes the options of the manager:
  they become what \<open>_applyRemainingDefaultOptions\<close> makes of them. \<open>truncate\<close> becomes 64, and
  every other field that is missing or empty receives its default: the icon U+E9CB, the
  visibility \<open>hover\<close>, the placement \<open>right\<close>, the label \<open>Anchor\<close>, and the empty string for
  the class, the base and the title. A field that is set keeps its value.
\<close>

theorem urlify_reapplies_defaults:
  assumes "truncateOpt o1 = None \<or> truncateOpt o1 = Some (Finite 0)"
  shows "fst (urlify env o1 text) = applyRemainingDefaultOptions o1
         \<and> truncateOpt (fst (urlify env o1 text)) = Some (Finite 64)
         \<and> icon (fst (urlify env o1 text))
             = (if icon o1 = None \<or> icon o1 = Some [] then Some [0xE9CB] else icon o1)
         \<and> visible (fst (urlify env o1 text))
             = (if visible o1 = None then Some Hover else visible o1)
         \<and> placement (fst (urlify env o1 text))
             = (if placement o1 = None then Some Right else placement o1)
         \<and> ariaLabel (fst (urlify env o1 text))
             = (if ariaLabel o1 = None \<or> ariaLabel o1 = Some []
                then Some [0x41, 0x6E, 0x63, 0x68, 0x6F, 0x72] else ariaLabel o1)
         \<and> classOpt (fst (urlify env o1 text))
             = (if classOpt o1 = None \<or> classOpt o1 = Some [] then Some [] else classOpt o1)
         \<and> base (fst (urlify env o1 text))
             = (if base o1 = None \<or> base o1 = Some [] then Some [] else base o1)
         \<and> titleText (fst (urlify env o1 text))
             = (if titleText o1 = None \<or> titleText o1 = Some [] then Some [] else titleText o1)"
proof -
  from assms have "\<not> truthyNumber (truncateOpt o1)" by auto
  then have u: "fst (urlify env o1 text) = applyRemainingDefaultOptions o1"
    by (simp add: urlify_def Let_def)
  from assms have t: "truncateOpt (applyRemainingDefaultOptions o1) = Some (Finite 64)"
    by (auto simp: applyRemainingDefaultOptions_def)
  have s: "Some (orString x d) = (if x = None \<or> x = Some [] then Some d else x)" for x d
    by (cases x) (simp_all add: orString_def)
  have a: "js ''Anchor'' = [0x41, 0x6E, 0x63, 0x68, 0x6F, 0x72]" by (simp add: js_def)
  have i: "icon (applyRemainingDefaultOptions o1)
             = (if icon o1 = None \<or> icon o1 = Some [] then Some [0xE9CB] else icon o1)"
    by (simp add: applyRemainingDefaultOptions_def s defaultIcon_def)
  have v: "visible (applyRemainingDefaultOptions o1)
             = (if visible o1 = None then Some Hover else visible o1)"
    by (cases "visible o1") (simp_all add: applyRemainingDefaultOptions_def)
  have p: "placement (applyRemainingDefaultOptions o1)
             = (if placement o1 = None then Some Right else placement o1)"
    by (cases "placement o1") (simp_all add: applyRemainingDefaultOptions_def)
  have l: "ariaLabel (applyRemainingDefaultOptions o1)
             = (if ariaLabel o1 = None \<or> ariaLabel o1 = Some []
                then Some [0x41, 0x6E, 0x63, 0x68, 0x6F, 0x72] else ariaLabel o1)"
    by (simp add: applyRemainingDefaultOptions_def s a)
  have c: "classOpt (applyRemainingDefaultOptions o1)
             = (if classOpt o1 = None \<or> classOpt o1 = Some [] then Some [] else classOpt o1)"
    by (simp add: applyRemainingDefaultOptions_def s)
  have b: "base (applyRemainingDefaultOptions o1)
             = (if base o1 = None \<or> base o1 = Some [] then Some [] else base o1)"
    by (simp add: applyRemainingDefaultOptions_def s)
  have tt: "titleText (applyRemainingDefaultOptions o1)
             = (if titleText o1 = None \<or> titleText o1 = Some [] then Some [] else titleText o1)"
    by (simp add: applyRemainingDefaultOptions_def s)
  show ?thesis unfolding u using t i v p l c b tt by (intro conjI) simp_all
qed

theorem urlify_reapplies_defaults_witness:
  "fst (urlify sampleEnv emptyOpts [0x49])
     = \<lparr> icon = Some [0xE9CB], visible = Some Hover, placement = Some Right,
         ariaLabel = Some [0x41, 0x6E, 0x63, 0x68, 0x6F, 0x72], classOpt = Some [],
         base = Some [], truncateOpt = Some (Finite 64), titleText = Some [] \<rparr>
   \<and> fst (urlify sampleEnv emptyOpts [0x49]) \<noteq> emptyOpts
   \<and> fst (urlify sampleEnv partOpts [0x49])
     = \<lparr> icon = Some [0x23], visible = Some Touch, placement = Some Right,
         ariaLabel = Some [0x41, 0x6E, 0x63, 0x68, 0x6F, 0x72], classOpt = Some [],
         base = Some [], truncateOpt = Some (Finite 64), titleText = Some [] \<rparr>"
proof -
  have h1: "truncateOpt emptyOpts = None \<or> truncateOpt emptyOpts = Some (Finite 0)"
    by (simp add: emptyOpts_def)
  have h2: "truncateOpt partOpts = None \<or> truncateOpt partOpts = Some (Finite 0)"
    by (simp add: partOpts_def)
  have e: "icon emptyOpts = None" "visible emptyOpts = None" "placement emptyOpts = None"
      "ariaLabel emptyOpts = None" "classOpt emptyOpts = None" "base emptyOpts = None"
      "titleText emptyOpts = None"
    by (simp_all add: emptyOpts_def)
  have q: "icon partOpts = Some [0x23]" "visible partOpts = Some Touch" "placement partOpts = None"
      "ariaLabel partOpts = Some []" "classOpt partOpts = None" "base partOpts = None"
      "titleText partOpts = None"
    by (simp_all add: partOpts_def emptyOpts_def)
  note t1 = urlify_reapplies_defaults [OF h1, of sampleEnv "[0x49]", unfolded e, simplified]
  from t1 have f: "truncateOpt (fst (urlify sampleEnv emptyOpts [0x49])) = Some (Finite 64)"
      "icon (fst (urlify sampleEnv emptyOpts [0x49])) = Some [0xE9CB]"
      "visible (fst (urlify sampleEnv emptyOpts [0x49])) = Some Hover"
      "placement (fst (urlify sampleEnv emptyOpts [0x49])) = Some Right"
      "ariaLabel (fst (urlify sampleEnv emptyOpts [0x49])) = Some [0x41, 0x6E, 0x63, 0x68, 0x6F, 0x72]"
      "classOpt (fst (urlify sampleEnv emptyOpts [0x49])) = Some []"
      "base (fst (urlify sampleEnv emptyOpts [0x49])) = Some []"
      "titleText (fst (urlify sampleEnv emptyOpts [0x49])) = Some []"
    by blast+
  have w1: "fst (urlify sampleEnv emptyOpts [0x49])
     = \<lparr> icon = Some [0xE9CB], visible = Some Hover, placement = Some Right,
         ariaLabel = Some [0x41, 0x6E, 0x63, 0x68, 0x6F, 0x72], classOpt = Some [],
         base = Some [], truncateOpt = Some (Finite 64), titleText = Some [] \<rparr>"
    by (rule anchorOpts.equality) (simp_all add: f)
  note t2 = urlify_reapplies_defaults [OF h2, of sampleEnv "[0x49]", unfolded q, simplified]
  from t2 have g: "truncateOpt (fst (urlify sampleEnv partOpts [0x49])) = Some (Finite 64)"
      "icon (fst (urlify sampleEnv partOpts [0x49])) = Some [0x23]"
      "visible (fst (urlify sampleEnv partOpts [0x49])) = Some Touch"
      "placement (fst (urlify sampleEnv partOpts [0x49])) = Some Right"
      "ariaLabel (fst (urlify sampleEnv partOpts [0x49])) = Some [0x41, 0x6E, 0x63, 0x68, 0x6F, 0x72]"
      "classOpt (fst (urlify sampleEnv partOpts [0x49])) = Some []"
      "base (fst (urlify sampleEnv partOpts [0x49])) = Some []"
      "titleText (fst (urlify sampleEnv partOpts [0x49])) = Some []"
    by blast+
  have w2: "fst (urlify sampleEnv partOpts [0x49])
     = \<lparr> icon = Some [0x23], visible = Some Touch, placement = Some Right,
         ariaLabel = Some [0x41, 0x6E, 0x63, 0x68, 0x6F, 0x72], classOpt = Some [],
         base = Some [], truncateOpt = Some (Finite 64), titleText = Some [] \<rparr>"
    by (rule anchorOpts.equality) (simp_all add: g)
  from w1 have "fst (urlify sampleEnv emptyOpts [0x49]) \<noteq> emptyOpts"
    by (simp add: emptyOpts_def)
  with w1 w2 show ?thesis by simp
qed

section \<open>The collision loop\<close>

lemma addDoWhile_suffixed:
  "index \<noteq> None \<Longrightarrow>
   \<exists>N\<ge>count. addDoWhile idList tidyText index count newTidyText = tidyText @ js ''-'' @ digits N
      \<and> tidyText @ js ''-'' @ digits N \<notin> set idList
      \<and> (\<forall>k. count \<le> k \<and> k < N \<longrightarrow> tidyText @ js ''-'' @ digits k \<in> set idList)"
proof (induction idList tidyText index count newTidyText rule: addDoWhile.induct)
  case (1 idList tidyText index count newTidyText)
  let ?c = "tidyText @ js ''-'' @ digits count"
  from "1.prems" have c: "(if index \<noteq> None then ?c else newTidyText) = ?c" by simp
  show ?case
  proof (cases "?c \<in> set idList")
    case False
    with c have "addDoWhile idList tidyText index count newTidyText = ?c"
      by (simp add: addDoWhile.simps [of idList tidyText index] indexOf_absent Let_def)
    with False show ?thesis by auto
  next
    case True
    then have found: "indexOf idList ?c \<noteq> - 1" by (simp add: indexOf_absent)
    with c have unfold: "addDoWhile idList tidyText index count newTidyText
             = addDoWhile idList tidyText (Some (indexOf idList ?c)) (count + 1) ?c"
      by (simp add: addDoWhile.simps [of idList tidyText index] Let_def)
    have "\<exists>N\<ge>count + 1.
        addDoWhile idList tidyText (Some (indexOf idList ?c)) (count + 1) ?c
           = tidyText @ js ''-'' @ digits N
        \<and> tidyText @ js ''-'' @ digits N \<notin> set idList
        \<and> (\<forall>k. count + 1 \<le> k \<and> k < N \<longrightarrow> tidyText @ js ''-'' @ digits k \<in> set idList)"
      using c found by (intro "1.IH" [of ?c "indexOf idList ?c" "count + 1"]) simp_all
    then obtain N where N: "count + 1 \<le> N"
        "addDoWhile idList tidyText (Some (indexOf idList ?c)) (count + 1) ?c
           = tidyText @ js ''-'' @ digits N"
        "tidyText @ js ''-'' @ digits N \<notin> set idList"
        "\<forall>k. count + 1 \<le> k \<and> k < N \<longrightarrow> tidyText @ js ''-'' @ digits k \<in> set idList"
      by auto
    have "\<forall>k. count \<le> k \<and> k < N \<longrightarrow> tidyText @ js ''-'' @ digits k \<in> set idList"
    proof (intro allI impI)
      fix k assume k: "count \<le> k \<and> k < N"
      show "tidyText @ js ''-'' @ digits k \<in> set idList"
      proof (cases "k = count")
        case True with \<open>?c \<in> set idList\<close> show ?thesis by simp
      next
        case False with k N(4) show ?thesis by simp
      qed
    qed
    with N unfold show ?thesis by (intro exI [of _ N]) simp
  qed
qed

lemma addDoWhile_free:
  "tidyText \<notin> set idList \<Longrightarrow> addDoWhile idList tidyText None 0 tidyText = tidyText"
  by (simp add: addDoWhile.simps [of idList tidyText None] indexOf_absent)

lemma addDoWhile_taken:
  assumes "tidyText \<in> set idList"
  shows "\<exists>N\<ge>1. addDoWhile idList tidyText None 0 tidyText = tidyText @ js ''-'' @ digits N
      \<and> tidyText @ js ''-'' @ digits N \<notin> set idList
      \<and> (\<forall>k. 1 \<le> k \<and> k < N \<longrightarrow> tidyText @ js ''-'' @ digits k \<in> set idList)"
proof -
  from assms have "addDoWhile idList tidyText None 0 tidyText
      = addDoWhile idList tidyText (Some (indexOf idList tidyText)) 1 tidyText"
    by (simp add: addDoWhile.simps [of idList tidyText None] indexOf_absent)
  with addDoWhile_suffixed [of "Some (indexOf idList tidyText)" 1 idList tidyText tidyText]
  show ?thesis by simp
qed

section \<open>add\<close>

text \<open>
  C8. When the input of \<open>add\<close> resolves to no element, \<open>add\<close> returns without an error and
  the document is the one it was given: no id is set, no anchor is inserted and no style is
  injected. Only the options of the manager have been defaulted.
\<close>

theorem add_zero_elements_no_effect:
  assumes "getElements env doc (effectiveSelector selector) = Inr []"
  shows "add env this selector doc
         = (None, this\<lparr>opts := applyRemainingDefaultOptions (opts this)\<rparr>, doc)"
  using assms by (simp add: add_def)

theorem add_zero_elements_witness:
  "getElements sampleEnv introDoc (effectiveSelector None) = Inr []
   \<and> add sampleEnv (newAnchor None) None introDoc
       = (None, (newAnchor None)\<lparr>opts := applyRemainingDefaultOptions (opts (newAnchor None))\<rparr>,
          introDoc)"
proof -
  have h: "getElements sampleEnv introDoc (effectiveSelector None) = Inr []"
    by code_simp
  from h add_zero_elements_no_effect [OF h, of "newAnchor None"] show ?thesis by simp
qed

section \<open>The document heap\<close>

lemma nodes_addBaselineStyles: "nodes (addBaselineStyles doc) = nodes doc"
  by (simp add: addBaselineStyles_def)

lemma hasAnchorJSLink_nodes:
  assumes "nodes doc1 = nodes doc"
  shows "hasAnchorJSLink doc1 el = hasAnchorJSLink doc el"
  unfolding hasAnchorJSLink_def firstChild_def lastChild_def assms ..

lemma nodes_updateNode: "nodes (updateNode r f doc) = (nodes doc)[r := f (nodes doc ! r)]"
  by (simp add: updateNode_def)

lemma length_insertAnchor:
  "length (nodes (insertAnchor o1 el a doc)) = Suc (length (nodes doc))"
  by (simp add: insertAnchor_def Let_def nodes_updateNode)

lemma insertAnchor_at:
  "el < length (nodes doc) \<Longrightarrow>
   nodes (insertAnchor o1 el a doc) ! el
     = (nodes doc ! el)\<lparr>childNodes :=
          (if placement o1 = Some Left then length (nodes doc) # childNodes (nodes doc ! el)
           else childNodes (nodes doc ! el) @ [length (nodes doc)])\<rparr>"
  by (simp add: insertAnchor_def Let_def nodes_updateNode nth_append)

lemma insertAnchor_new:
  "el < length (nodes doc) \<Longrightarrow> nodes (insertAnchor o1 el a doc) ! length (nodes doc) = a"
  by (simp add: insertAnchor_def Let_def nodes_updateNode)

lemma insertAnchor_other:
  "r < length (nodes doc) \<Longrightarrow> r \<noteq> el \<Longrightarrow> nodes (insertAnchor o1 el a doc) ! r = nodes doc ! r"
  by (simp add: insertAnchor_def Let_def nodes_updateNode nth_append)

lemma getAttribute_setAttribute:
  "getAttribute (setAttribute name v n) name' = (if name' = name then Some v else getAttribute n name')"
  by (simp add: getAttribute_def setAttribute_def update_conv')

lemma getAttribute_childNodes_update:
  "getAttribute (n\<lparr>childNodes := cs\<rparr>) name = getAttribute n name"
  by (simp add: getAttribute_def)

lemma getAttribute_setStyle: "getAttribute (setStyle name v n) name' = getAttribute n name'"
  by (simp add: getAttribute_def setStyle_def)

lemma addStep_process:
  assumes "hasAnchorJSLink (stDocument st) el = Inr False"
      and "isElement (nodes (stDocument st) ! el)"
  shows "addStep env el i st =
           (None, (snd (addElementID env el st))
              \<lparr>stDocument :=
                 insertAnchor (opts (stThis (snd (addElementID env el st)))) el
                   (addAnchorNode env (opts (stThis (snd (addElementID env el st))))
                      (stDocument (snd (addElementID env el st))) (fst (addElementID env el st)))
                   (stDocument (snd (addElementID env el st)))\<rparr>)"
  using assms by (simp add: addStep_def Let_def split: prod.splits)

lemma addElementID_generated:
  assumes "getAttribute (nodes (stDocument st) ! el) ''id'' = None"
      and "getAttribute (nodes (stDocument st) ! el) ''data-anchor-id'' = None"
  shows "addElementID env el st =
          (let r = urlify env (opts (stThis st)) (textContent (nodes (stDocument st) ! el));
               newTidyText = addDoWhile (stIdList st) (snd r) None 0 (snd r)
           in (newTidyText,
               st\<lparr> stThis := (stThis st)\<lparr>opts := fst r\<rparr>,
                   stIdList := stIdList st @ [newTidyText],
                   stDocument := updateNode el (setAttribute ''id'' newTidyText) (stDocument st) \<rparr>))"
  using assms by (simp add: addElementID_def Let_def split: prod.splits)

lemma addStep_generated:
  assumes "hasAnchorJSLink (stDocument st) el = Inr False"
      and "isElement (nodes (stDocument st) ! el)"
      and "getAttribute (nodes (stDocument st) ! el) ''id'' = None"
      and "getAttribute (nodes (stDocument st) ! el) ''data-anchor-id'' = None"
      and "el < length (nodes (stDocument st))"
      and "snd (urlify env (opts (stThis st)) (textContent (nodes (stDocument st) ! el))) = slug"
  shows "fst (addStep env el i st) = None
         \<and> stIdList (snd (addStep env el i st))
             = stIdList st @ [addDoWhile (stIdList st) slug None 0 slug]
         \<and> getAttribute (nodes (stDocument (snd (addStep env el i st))) ! el) ''id''
             = Some (addDoWhile (stIdList st) slug None 0 slug)"
  using assms
  by (simp add: addStep_process addElementID_generated Let_def insertAnchor_at nodes_updateNode
        getAttribute_setAttribute getAttribute_childNodes_update)

section \<open>Identifiers\<close>

text \<open>
  C1, amended. An element that passes the already-anchored test and has neither an \<open>id\<close>
  nor a \<open>data-anchor-id\<close> attribute, and whose slug is in the list of known ids, receives
  the slug with the suffix \<open>-N\<close>, where \<open>N\<close> is the least number from 1 on whose candidate is
  not in the list. The accepted candidate is pushed on the list and set as the \<open>id\<close>
  attribute of the element.
\<close>

theorem generated_id_suffix_from_one:
  assumes "hasAnchorJSLink (stDocument st) el = Inr False"
      and "isElement (nodes (stDocument st) ! el)"
      and "getAttribute (nodes (stDocument st) ! el) ''id'' = None"
      and "getAttribute (nodes (stDocument st) ! el) ''data-anchor-id'' = None"
      and "el < length (nodes (stDocument st))"
      and "snd (urlify env (opts (stThis st)) (textContent (nodes (stDocument st) ! el))) = slug"
      and "slug \<in> set (stIdList st)"
  shows "\<exists>N\<ge>1.
           fst (addStep env el i st) = None
         \<and> getAttribute (nodes (stDocument (snd (addStep env el i st))) ! el) ''id''
             = Some (slug @ js ''-'' @ digits N)
         \<and> stIdList (snd (addStep env el i st)) = stIdList st @ [slug @ js ''-'' @ digits N]
         \<and> slug @ js ''-'' @ digits N \<notin> set (stIdList st)
         \<and> (\<forall>k. 1 \<le> k \<and> k < N \<longrightarrow> slug @ js ''-'' @ digits k \<in> set (stIdList st))"
proof -
  from addDoWhile_taken [OF assms(7)] obtain N where N: "1 \<le> N"
      "addDoWhile (stIdList st) slug None 0 slug = slug @ js ''-'' @ digits N"
      "slug @ js ''-'' @ digits N \<notin> set (stIdList st)"
      "\<forall>k. 1 \<le> k \<and> k < N \<longrightarrow> slug @ js ''-'' @ digits k \<in> set (stIdList st)"
    by blast
  from addStep_generated [OF assms(1-6), of i] N show ?thesis
    by (intro exI [of _ N]) simp
qed

theorem generated_id_suffix_witness:
  "js ''intro'' \<in> set (stIdList (scanState introDoc))
   \<and> fst (addStep sampleEnv 4 0 (scanState introDoc)) = None
   \<and> getAttribute (nodes (stDocument (snd (addStep sampleEnv 4 0 (scanState introDoc)))) ! 4) ''id''
       = Some (js ''intro'' @ js ''-'' @ digits 1)
   \<and> stIdList (snd (addStep sampleEnv 4 0 (scanState introDoc)))
       = stIdList (scanState introDoc) @ [js ''intro'' @ js ''-'' @ digits 1]"
proof -
  let ?st = "scanState introDoc"
  have h1: "hasAnchorJSLink (stDocument ?st) 4 = Inr False" by code_simp
  have h2: "isElement (nodes (stDocument ?st) ! 4)" by code_simp
  have h3: "getAttribute (nodes (stDocument ?st) ! 4) ''id'' = None" by code_simp
  have h4: "getAttribute (nodes (stDocument ?st) ! 4) ''data-anchor-id'' = None" by code_simp
  have h5: "4 < length (nodes (stDocument ?st))" by code_simp
  have h6: "snd (urlify sampleEnv (opts (stThis ?st)) (textContent (nodes (stDocument ?st) ! 4)))
            = js ''intro''" by code_simp
  have h7: "js ''intro'' \<in> set (stIdList ?st)" by code_simp
  have free: "js ''intro'' @ js ''-'' @ digits 1 \<notin> set (stIdList ?st)" by code_simp
  from generated_id_suffix_from_one [OF h1 h2 h3 h4 h5 h6 h7, of 0]
  obtain N where N: "1 \<le> N"
      "fst (addStep sampleEnv 4 0 ?st) = None"
      "getAttribute (nodes (stDocument (snd (addStep sampleEnv 4 0 ?st))) ! 4) ''id''
         = Some (js ''intro'' @ js ''-'' @ digits N)"
      "stIdList (snd (addStep sampleEnv 4 0 ?st)) = stIdList ?st @ [js ''intro'' @ js ''-'' @ digits N]"
      "\<forall>k. 1 \<le> k \<and> k < N \<longrightarrow> js ''intro'' @ js ''-'' @ digits k \<in> set (stIdList ?st)"
    by blast
  have "N = 1"
  proof (rule ccontr)
    assume "N \<noteq> 1"
    with N(1) have "1 \<le> (1::nat) \<and> 1 < N" by simp
    with N(5) have "js ''intro'' @ js ''-'' @ digits 1 \<in> set (stIdList ?st)" by blast
    with free show False by simp
  qed
  with N h7 show ?thesis by simp
qed

text \<open>
  C1 as stated fails: with the single known id \<open>intro\<close> and the slug \<open>intro\<close>, the
  candidate \<open>intro-0\<close> is free, and the element receives \<open>intro-1\<close>.
\<close>

theorem suffix_from_zero_counterexample:
  "snd (urlify sampleEnv (opts (stThis (scanState collideDoc)))
         (textContent (nodes collideDoc ! 2))) = js ''intro''
   \<and> js ''intro'' \<in> set (stIdList (scanState collideDoc))
   \<and> js ''intro'' @ js ''-'' @ digits 0 \<notin> set (stIdList (scanState collideDoc))
   \<and> getAttribute (nodes (stDocument (snd (addStep sampleEnv 2 0 (scanState collideDoc)))) ! 2) ''id''
       = Some (js ''intro'' @ js ''-'' @ digits 1)
   \<and> js ''intro'' @ js ''-'' @ digits 1 \<noteq> js ''intro'' @ js ''-'' @ digits 0"
  by code_simp

lemma addDoWhile_first_suffix:
  assumes "tidyText \<in> set idList" and "tidyText @ js ''-'' @ digits 1 \<notin> set idList"
  shows "addDoWhile idList tidyText None 0 tidyText = tidyText @ js ''-'' @ digits 1"
proof -
  from addDoWhile_taken [OF assms(1)] obtain N where N: "1 \<le> N"
      "addDoWhile idList tidyText None 0 tidyText = tidyText @ js ''-'' @ digits N"
      "\<forall>k. 1 \<le> k \<and> k < N \<longrightarrow> tidyText @ js ''-'' @ digits k \<in> set idList"
    by blast
  have "N = 1"
  proof (rule ccontr)
    assume "N \<noteq> 1"
    with N(1) have "1 \<le> (1::nat) \<and> 1 < N" by simp
    with N(3) have "tidyText @ js ''-'' @ digits 1 \<in> set idList" by blast
    with assms(2) show False by simp
  qed
  with N(2) show ?thesis by simp
qed

lemma addLoop_single:
  "addLoop env [el] i st = (fst (addStep env el i st), snd (addStep env el i st))"
  by (cases "addStep env el i st") (simp split: option.splits)

lemma add_single:
  assumes "getElements env doc (effectiveSelector selector) = Inr [h]"
  shows "fst (add env this selector doc)
           = fst (addStep env h 0
                \<lparr> stThis = this\<lparr>opts := applyRemainingDefaultOptions (opts this)\<rparr>,
                  stIdList = existingIds env (addBaselineStyles doc), stIndexesToDrop = [],
                  stDocument = addBaselineStyles doc \<rparr>)"
    and "snd (snd (add env this selector doc))
           = stDocument (snd (addStep env h 0
                \<lparr> stThis = this\<lparr>opts := applyRemainingDefaultOptions (opts this)\<rparr>,
                  stIdList = existingIds env (addBaselineStyles doc), stIndexesToDrop = [],
                  stDocument = addBaselineStyles doc \<rparr>))"
  using assms
  by (simp_all add: add_def Let_def addLoop_single split: option.splits prod.splits)

text \<open>
  C2. When the ids of the document are exactly \<open>intro\<close> and \<open>intro-0\<close>, \<open>add\<close> on a heading
  without \<open>id\<close> and \<open>data-anchor-id\<close> whose slug is \<open>intro\<close> returns without an error and the
  heading has the id \<open>intro-1\<close>. The heading is the one element the input resolves to, and
  it passes the already-anchored test. The ids are read once the style element is in the
  head, as \<open>add\<close> does.
\<close>

theorem intro_collision_assigns_intro_1:
  assumes "getElements env doc (effectiveSelector selector) = Inr [h]"
      and "set (existingIds env (addBaselineStyles doc)) = {js ''intro'', js ''intro-0''}"
      and "h < length (nodes doc)"
      and "hasAnchorJSLink doc h = Inr False"
      and "isElement (nodes doc ! h)"
      and "getAttribute (nodes doc ! h) ''id'' = None"
      and "getAttribute (nodes doc ! h) ''data-anchor-id'' = None"
      and "snd (urlify env (applyRemainingDefaultOptions (opts this)) (textContent (nodes doc ! h)))
           = js ''intro''"
  shows "fst (add env this selector doc) = None
         \<and> getAttribute (nodes (snd (snd (add env this selector doc))) ! h) ''id''
             = Some (js ''intro-1'')"
proof -
  let ?st0 = "\<lparr> stThis = this\<lparr>opts := applyRemainingDefaultOptions (opts this)\<rparr>,
                 stIdList = existingIds env (addBaselineStyles doc), stIndexesToDrop = [],
                 stDocument = addBaselineStyles doc \<rparr>"
  have n: "nodes (stDocument ?st0) = nodes doc" by (simp add: nodes_addBaselineStyles)
  have h1: "hasAnchorJSLink (stDocument ?st0) h = Inr False"
    using assms(4) hasAnchorJSLink_nodes [OF n] by simp
  have step: "fst (addStep env h 0 ?st0) = None
         \<and> getAttribute (nodes (stDocument (snd (addStep env h 0 ?st0))) ! h) ''id''
             = Some (addDoWhile (stIdList ?st0) (js ''intro'') None 0 (js ''intro''))"
    using addStep_generated [of ?st0 h env "js ''intro''" 0] h1 assms(3,5-8)
    by (simp add: nodes_addBaselineStyles)
  have taken: "js ''intro'' \<in> set (stIdList ?st0)" using assms(2) by simp
  have "js ''intro'' @ js ''-'' @ digits 1 = js ''intro-1''"
    by (simp add: js_def digits.simps)
  moreover have "js ''intro-1'' \<notin> set (stIdList ?st0)"
    using assms(2) by (simp add: js_def)
  ultimately have "addDoWhile (stIdList ?st0) (js ''intro'') None 0 (js ''intro'') = js ''intro-1''"
    using addDoWhile_first_suffix [OF taken] by simp
  with step add_single [OF assms(1), of this] show ?thesis by simp
qed

theorem intro_collision_witness:
  "set (existingIds sampleEnv (addBaselineStyles introDoc)) = {js ''intro'', js ''intro-0''}
   \<and> fst (add sampleEnv (newAnchor None) (Some (NodeArray [4])) introDoc) = None
   \<and> getAttribute
        (nodes (snd (snd (add sampleEnv (newAnchor None) (Some (NodeArray [4])) introDoc))) ! 4)
        ''id'' = Some (js ''intro-1'')"
proof -
  have h1: "getElements sampleEnv introDoc (effectiveSelector (Some (NodeArray [4]))) = Inr [4]"
    by code_simp
  have h2: "set (existingIds sampleEnv (addBaselineStyles introDoc)) = {js ''intro'', js ''intro-0''}"
    by code_simp
  have h3: "4 < length (nodes introDoc)" by code_simp
  have h4: "hasAnchorJSLink introDoc 4 = Inr False" by code_simp
  have h5: "isElement (nodes introDoc ! 4)" by code_simp
  have h6: "getAttribute (nodes introDoc ! 4) ''id'' = None" by code_simp
  have h7: "getAttribute (nodes introDoc ! 4) ''data-anchor-id'' = None" by code_simp
  have h8: "snd (urlify sampleEnv (applyRemainingDefaultOptions (opts (newAnchor None)))
                  (textContent (nodes introDoc ! 4))) = js ''intro''" by code_simp
  from intro_collision_assigns_intro_1 [OF h1 h2 h3 h4 h5 h6 h7 h8] h2 show ?thesis by simp
qed

text \<open>
  Where the already-anchored test returns false: an element that has an \<open>id\<close> attribute, or
  has none but has a \<open>data-anchor-id\<close> attribute, is given an anchor whose \<open>href\<close> ends in
  \<open>#\<close> and that value as it is. No slug is generated: the manager and the list of known ids
  are as before, whatever the list holds, and the attributes of the element are not
  touched.
\<close>

lemma reused_identifier_verbatim:
  assumes "hasAnchorJSLink (stDocument st) el = Inr False"
      and "isElement (nodes (stDocument st) ! el)"
      and "el < length (nodes (stDocument st))"
      and "getAttribute (nodes (stDocument st) ! el) ''id'' = Some v
           \<or> (getAttribute (nodes (stDocument st) ! el) ''id'' = None
               \<and> getAttribute (nodes (stDocument st) ! el) ''data-anchor-id'' = Some v)"
  shows "fst (addStep env el i st) = None
         \<and> stThis (snd (addStep env el i st)) = stThis st
         \<and> stIdList (snd (addStep env el i st)) = stIdList st
         \<and> attributes (nodes (stDocument (snd (addStep env el i st))) ! el)
             = attributes (nodes (stDocument st) ! el)
         \<and> length (nodes (stDocument st))
             \<in> set (childNodes (nodes (stDocument (snd (addStep env el i st))) ! el))
         \<and> getAttribute
              (nodes (stDocument (snd (addStep env el i st))) ! length (nodes (stDocument st)))
              ''href''
             = Some (orString (base (opts (stThis st)))
                       (if querySelectorAll env (stDocument st) (js ''base'') \<noteq> []
                        then locationPathname env @ locationSearch env else [])
                     @ js ''#'' @ v)"
proof -
  from assms(4) have eid: "addElementID env el st = (v, st)"
    by (auto simp: addElementID_def Let_def)
  have href: "getAttribute (addAnchorNode env o1 doc v) ''href''
              = Some (orString (base o1)
                        (if querySelectorAll env doc (js ''base'') \<noteq> []
                         then locationPathname env @ locationSearch env else [])
                      @ js ''#'' @ v)" for o1 doc
    by (simp add: addAnchorNode_def Let_def getAttribute_setStyle getAttribute_setAttribute)
  from assms(1-3) eid href show ?thesis
    by (simp add: addStep_process insertAnchor_at insertAnchor_new)
qed

lemma reused_identifier_example:
  "js ''foo'' \<in> set (stIdList (scanState reuseDoc))
   \<and> getAttribute (nodes reuseDoc ! 2) ''id'' = Some (js ''foo'')
   \<and> getAttribute (nodes (stDocument (snd (addStep sampleEnv 2 0 (scanState reuseDoc)))) ! 2) ''id''
       = Some (js ''foo'')
   \<and> getAttribute (nodes (stDocument (snd (addStep sampleEnv 2 0 (scanState reuseDoc)))) ! 6) ''href''
       = Some (js ''#foo'')
   \<and> stIdList (snd (addStep sampleEnv 2 0 (scanState reuseDoc))) = stIdList (scanState reuseDoc)
   \<and> getAttribute (nodes reuseDoc ! 4) ''data-anchor-id'' = Some (js ''foo'')
   \<and> getAttribute (nodes (stDocument (snd (addStep sampleEnv 4 1 (scanState reuseDoc)))) ! 4) ''id''
       = None
   \<and> getAttribute (nodes (stDocument (snd (addStep sampleEnv 4 1 (scanState reuseDoc)))) ! 6) ''href''
       = Some (js ''#foo'')"
proof -
  let ?st = "scanState reuseDoc"
  have len: "length (nodes (stDocument ?st)) = 6" by code_simp
  have reg: "js ''foo'' \<in> set (stIdList ?st)" by code_simp
  have base: "orString (base (opts (stThis ?st)))
                (if querySelectorAll sampleEnv (stDocument ?st) (js ''base'') \<noteq> []
                 then locationPathname sampleEnv @ locationSearch sampleEnv else []) @ js ''#'' @ js ''foo''
              = js ''#foo''" by code_simp
  have a1: "hasAnchorJSLink (stDocument ?st) 2 = Inr False" by code_simp
  have a2: "isElement (nodes (stDocument ?st) ! 2)" by code_simp
  have a3: "2 < length (nodes (stDocument ?st))" by code_simp
  have a4: "getAttribute (nodes (stDocument ?st) ! 2) ''id'' = Some (js ''foo'')" by code_simp
  have b1: "hasAnchorJSLink (stDocument ?st) 4 = Inr False" by code_simp
  have b2: "isElement (nodes (stDocument ?st) ! 4)" by code_simp
  have b3: "4 < length (nodes (stDocument ?st))" by code_simp
  have b4: "getAttribute (nodes (stDocument ?st) ! 4) ''id'' = None" by code_simp
  have b5: "getAttribute (nodes (stDocument ?st) ! 4) ''data-anchor-id'' = Some (js ''foo'')"
    by code_simp
  have d: "stDocument ?st = reuseDoc" by (simp add: scanState_def)
  from a4 have a: "getAttribute (nodes (stDocument ?st) ! 2) ''id'' = Some (js ''foo'')
           \<or> (getAttribute (nodes (stDocument ?st) ! 2) ''id'' = None
               \<and> getAttribute (nodes (stDocument ?st) ! 2) ''data-anchor-id'' = Some (js ''foo''))"
    by simp
  from b4 b5 have b: "getAttribute (nodes (stDocument ?st) ! 4) ''id'' = Some (js ''foo'')
           \<or> (getAttribute (nodes (stDocument ?st) ! 4) ''id'' = None
               \<and> getAttribute (nodes (stDocument ?st) ! 4) ''data-anchor-id'' = Some (js ''foo''))"
    by simp
  from reused_identifier_verbatim [OF a1 a2 a3 a, of sampleEnv 0]
       reused_identifier_verbatim [OF b1 b2 b3 b, of sampleEnv 1]
       len reg base a4 b4 b5 d
  show ?thesis by (simp add: getAttribute_def)
qed

text \<open>The same for \<open>add\<close> on an input that resolves to the element alone.\<close>

lemma reused_identifier_in_add:
  assumes "getElements env doc (effectiveSelector selector) = Inr [h]"
      and "h < length (nodes doc)"
      and "hasAnchorJSLink doc h = Inr False"
      and "isElement (nodes doc ! h)"
      and "getAttribute (nodes doc ! h) ''id'' = Some v
           \<or> (getAttribute (nodes doc ! h) ''id'' = None
               \<and> getAttribute (nodes doc ! h) ''data-anchor-id'' = Some v)"
  shows "fst (add env this selector doc) = None
         \<and> attributes (nodes (snd (snd (add env this selector doc))) ! h)
             = attributes (nodes doc ! h)
         \<and> length (nodes doc) \<in> set (childNodes (nodes (snd (snd (add env this selector doc))) ! h))
         \<and> getAttribute (nodes (snd (snd (add env this selector doc))) ! length (nodes doc)) ''href''
             = Some (orString (base (applyRemainingDefaultOptions (opts this)))
                       (if querySelectorAll env (addBaselineStyles doc) (js ''base'') \<noteq> []
                        then locationPathname env @ locationSearch env else [])
                     @ js ''#'' @ v)"
proof -
  let ?st0 = "\<lparr> stThis = this\<lparr>opts := applyRemainingDefaultOptions (opts this)\<rparr>,
                 stIdList = existingIds env (addBaselineStyles doc), stIndexesToDrop = [],
                 stDocument = addBaselineStyles doc \<rparr>"
  have n: "nodes (stDocument ?st0) = nodes doc" by (simp add: nodes_addBaselineStyles)
  have h1: "hasAnchorJSLink (stDocument ?st0) h = Inr False"
    using assms(3) hasAnchorJSLink_nodes [OF n] by simp
  have h2: "isElement (nodes (stDocument ?st0) ! h)" using assms(4) n by simp
  have h3: "h < length (nodes (stDocument ?st0))" using assms(2) n by simp
  have h4: "getAttribute (nodes (stDocument ?st0) ! h) ''id'' = Some v
           \<or> (getAttribute (nodes (stDocument ?st0) ! h) ''id'' = None
               \<and> getAttribute (nodes (stDocument ?st0) ! h) ''data-anchor-id'' = Some v)"
    using assms(5) n by simp
  from reused_identifier_verbatim [OF h1 h2 h3 h4, of env 0] add_single [OF assms(1), of this] n
  show ?thesis by simp
qed

text \<open>
  C7. The id is not reused on every element that carries one: on a heading with an id and
  no children, \<open>add\<close> throws the \<open>TypeError\<close> of \<open>hasAnchorJSLink\<close> before it reads the id, and
  the heading is given no anchor.
\<close>

theorem add_throws_on_childless_heading_with_id:
  "getAttribute (nodes childlessIdDoc ! 0) ''id'' = Some (js ''foo'')
   \<and> isElement (nodes childlessIdDoc ! 0)
   \<and> childNodes (nodes childlessIdDoc ! 0) = []
   \<and> hasAnchorJSLink childlessIdDoc 0 = Inl TypeError
   \<and> fst (add sampleEnv (newAnchor None) (Some (NodeArray [0])) childlessIdDoc) = Some TypeError
   \<and> nodes (snd (snd (add sampleEnv (newAnchor None) (Some (NodeArray [0])) childlessIdDoc)))
       = nodes childlessIdDoc"
  by code_simp

section \<open>Truncation\<close>

lemma length_trimHyphens: "length (trimHyphens b s) \<le> length s"
proof (induction b s rule: trimHyphens.induct)
  case (1 atStart)
  show ?case by simp
next
  case (2 atStart c cs)
  show ?case
  proof (cases "c = hyphen")
    case False
    with 2 show ?thesis by simp
  next
    case True
    let ?p = "\<lambda>x. x = hyphen"
    from True 2 have "length (trimHyphens False (dropWhile ?p cs)) \<le> length (dropWhile ?p cs)"
      by simp
    moreover have "length (takeWhile ?p cs) + length (dropWhile ?p cs) = length cs"
      by (metis length_append takeWhile_dropWhile_id)
    ultimately show ?thesis using True by (simp add: Let_def)
  qed
qed

lemma truncateOpt_defaults:
  "truncateOpt (applyRemainingDefaultOptions o1)
     = Some (case truncateOpt o1 of None \<Rightarrow> Finite 64
             | Some n \<Rightarrow> if truthyNumber (Some n) then mathFloor n else Finite 64)"
  by (simp add: applyRemainingDefaultOptions_def)

lemma urlify_slug:
  "snd (urlify env o1 text)
     = toLowerCase env (trimHyphens True (substring0 (hyphenate env text)
         (truncateOpt (if \<not> truthyNumber (truncateOpt o1)
                       then applyRemainingDefaultOptions o1 else o1))))"
  by (simp add: urlify_def Let_def)

text \<open>
  C4, amended. With the options defaulted as the constructor and \<open>add\<close> do, \<open>urlify\<close> cuts the
  hyphenated text to 64 code units when \<open>truncate\<close> is missing, \<open>NaN\<close> or zero, and also when
  it is positive and below 1 (it is floored to zero, which is falsy); to the floor of
  \<open>truncate\<close> when that is 1 or more; and to nothing when \<open>truncate\<close> is negative. What is
  lower-cased has at most that many code units.
\<close>

theorem truncate_configuration:
  "(\<not> truthyNumber (truncateOpt o1) \<longrightarrow>
      snd (urlify env (applyRemainingDefaultOptions o1) text)
        = toLowerCase env (trimHyphens True (take 64 (hyphenate env text))))
   \<and> (truncateOpt o1 = Some (Finite r) \<and> 1 \<le> r \<longrightarrow>
      snd (urlify env (applyRemainingDefaultOptions o1) text)
        = toLowerCase env (trimHyphens True (take (nat \<lfloor>r\<rfloor>) (hyphenate env text))))
   \<and> (truncateOpt o1 = Some (Finite r) \<and> 0 < r \<and> r < 1 \<longrightarrow>
      snd (urlify env (applyRemainingDefaultOptions o1) text)
        = toLowerCase env (trimHyphens True (take 64 (hyphenate env text))))
   \<and> (truncateOpt o1 = Some (Finite r) \<and> r < 0 \<longrightarrow>
      snd (urlify env (applyRemainingDefaultOptions o1) text) = toLowerCase env [])
   \<and> length (trimHyphens True (take n (hyphenate env text))) \<le> n"
proof (intro conjI impI)
  assume "\<not> truthyNumber (truncateOpt o1)"
  then have "truncateOpt (applyRemainingDefaultOptions o1) = Some (Finite 64)"
    by (cases "truncateOpt o1") (simp_all add: truncateOpt_defaults)
  then show "snd (urlify env (applyRemainingDefaultOptions o1) text)
        = toLowerCase env (trimHyphens True (take 64 (hyphenate env text)))"
    by (simp add: urlify_slug)
next
  assume a: "truncateOpt o1 = Some (Finite r) \<and> 1 \<le> r"
  then have fl: "1 \<le> \<lfloor>r\<rfloor>" by linarith
  then have nz: "\<lfloor>r\<rfloor> \<noteq> 0" by arith
  from a have t: "truncateOpt (applyRemainingDefaultOptions o1) = Some (Finite (of_int \<lfloor>r\<rfloor>))"
    by (auto simp: truncateOpt_defaults)
  from t nz a show "snd (urlify env (applyRemainingDefaultOptions o1) text)
        = toLowerCase env (trimHyphens True (take (nat \<lfloor>r\<rfloor>) (hyphenate env text)))"
    by (simp add: urlify_slug)
next
  assume a: "truncateOpt o1 = Some (Finite r) \<and> 0 < r \<and> r < 1"
  then have "\<lfloor>r\<rfloor> = 0" by linarith
  with a have t: "truncateOpt (applyRemainingDefaultOptions o1) = Some (Finite 0)"
    by (simp add: truncateOpt_defaults)
  then have "truncateOpt (applyRemainingDefaultOptions (applyRemainingDefaultOptions o1))
             = Some (Finite 64)"
    by (simp add: truncateOpt_defaults [of "applyRemainingDefaultOptions o1"])
  with t show "snd (urlify env (applyRemainingDefaultOptions o1) text)
        = toLowerCase env (trimHyphens True (take 64 (hyphenate env text)))"
    by (simp add: urlify_slug)
next
  assume a: "truncateOpt o1 = Some (Finite r) \<and> r < 0"
  then have fl: "\<lfloor>r\<rfloor> < 0" by linarith
  then have nz: "\<lfloor>r\<rfloor> \<noteq> 0" by arith
  from a have t: "truncateOpt (applyRemainingDefaultOptions o1) = Some (Finite (of_int \<lfloor>r\<rfloor>))"
    by (auto simp: truncateOpt_defaults)
  from t nz a show "snd (urlify env (applyRemainingDefaultOptions o1) text) = toLowerCase env []"
    by (simp add: urlify_slug)
next
  have "length (trimHyphens True (take n (hyphenate env text)))
          \<le> length (take n (hyphenate env text))"
    by (rule length_trimHyphens)
  then show "length (trimHyphens True (take n (hyphenate env text))) \<le> n" by simp
qed

theorem truncate_configuration_witness:
  "snd (urlify sampleEnv
         (applyRemainingDefaultOptions (emptyOpts\<lparr>truncateOpt := Some (Finite (5 / 2))\<rparr>))
         (js ''Intro'')) = js ''in''
   \<and> snd (urlify sampleEnv
         (applyRemainingDefaultOptions (emptyOpts\<lparr>truncateOpt := Some (Finite (1 / 2))\<rparr>))
         (js ''Intro'')) = js ''intro''
   \<and> snd (urlify sampleEnv (applyRemainingDefaultOptions emptyOpts) (js ''Intro'')) = js ''intro''
   \<and> snd (urlify sampleEnv
         (applyRemainingDefaultOptions (emptyOpts\<lparr>truncateOpt := Some (Finite (- 5))\<rparr>))
         (js ''Intro'')) = []
   \<and> length (trimHyphens True (take 2 (hyphenate sampleEnv (js ''a-b'')))) \<le> 2"
proof -
  have t1: "truncateOpt (emptyOpts\<lparr>truncateOpt := Some (Finite (5 / 2))\<rparr>) = Some (Finite (5 / 2))
            \<and> (1::real) \<le> 5 / 2" by simp
  have t2: "truncateOpt (emptyOpts\<lparr>truncateOpt := Some (Finite (1 / 2))\<rparr>) = Some (Finite (1 / 2))
            \<and> (0::real) < 1 / 2 \<and> (1 / 2 :: real) < 1" by simp
  have t3: "\<not> truthyNumber (truncateOpt emptyOpts)" by (simp add: emptyOpts_def)
  have t4: "truncateOpt (emptyOpts\<lparr>truncateOpt := Some (Finite (- 5))\<rparr>) = Some (Finite (- 5))
            \<and> (- 5 :: real) < 0" by simp
  have f: "nat \<lfloor>5 / 2 :: real\<rfloor> = 2" by simp
  have e1: "toLowerCase sampleEnv (trimHyphens True (take 2 (hyphenate sampleEnv (js ''Intro''))))
            = js ''in''" by code_simp
  have e2: "toLowerCase sampleEnv (trimHyphens True (take 64 (hyphenate sampleEnv (js ''Intro''))))
            = js ''intro''" by code_simp
  have e3: "toLowerCase sampleEnv [] = []" by code_simp
  from truncate_configuration [of "emptyOpts\<lparr>truncateOpt := Some (Finite (5 / 2))\<rparr>" sampleEnv
         "js ''Intro''" "5 / 2" 2] t1
  have w1: "snd (urlify sampleEnv
         (applyRemainingDefaultOptions (emptyOpts\<lparr>truncateOpt := Some (Finite (5 / 2))\<rparr>))
         (js ''Intro'')) = js ''in''"
    using f e1 by simp
  from truncate_configuration [of "emptyOpts\<lparr>truncateOpt := Some (Finite (1 / 2))\<rparr>" sampleEnv
         "js ''Intro''" "1 / 2" 2] t2
  have w2: "snd (urlify sampleEnv
         (applyRemainingDefaultOptions (emptyOpts\<lparr>truncateOpt := Some (Finite (1 / 2))\<rparr>))
         (js ''Intro'')) = js ''intro''"
    using e2 by simp
  from truncate_configuration [of emptyOpts sampleEnv "js ''Intro''" 0 2] t3
  have w3: "snd (urlify sampleEnv (applyRemainingDefaultOptions emptyOpts) (js ''Intro''))
            = js ''intro''"
    using e2 by simp
  from truncate_configuration [of "emptyOpts\<lparr>truncateOpt := Some (Finite (- 5))\<rparr>" sampleEnv
         "js ''Intro''" "- 5" 2] t4
  have w4: "snd (urlify sampleEnv
         (applyRemainingDefaultOptions (emptyOpts\<lparr>truncateOpt := Some (Finite (- 5))\<rparr>))
         (js ''Intro'')) = []"
    using e3 by simp
  from truncate_configuration [of emptyOpts sampleEnv "js ''a-b''" 0 2]
  have w5: "length (trimHyphens True (take 2 (hyphenate sampleEnv (js ''a-b'')))) \<le> 2"
    by simp
  from w1 w2 w3 w4 w5 show ?thesis by simp
qed

text \<open>
  C4 as stated fails: a negative \<open>truncate\<close> does not fall back to 64. It is kept, and the
  slug of \<open>Intro\<close> is empty, where the default gives \<open>intro\<close>.
\<close>

theorem negative_truncate_counterexample:
  "truncateOpt (opts (newAnchor (Some (emptyOpts\<lparr>truncateOpt := Some (Finite (- 5))\<rparr>))))
     = Some (Finite (- 5))
   \<and> snd (urlify sampleEnv
            (opts (newAnchor (Some (emptyOpts\<lparr>truncateOpt := Some (Finite (- 5))\<rparr>))))
            (js ''Intro'')) = []
   \<and> snd (urlify sampleEnv (opts (newAnchor (Some emptyOpts))) (js ''Intro'')) = js ''intro''
   \<and> js ''intro'' \<noteq> []"
  by code_simp

section \<open>The second scan\<close>

text \<open>
  The invariant of the proof: the element is a node of the document and its first or its
  last child is a node without children whose class starts with the marker class, as the
  anchor that \<open>add\<close> inserts is. No turn of the loop touches such an element or its anchor:
  the element is skipped, and on the anchor, which has no children, \<open>hasAnchorJSLink\<close> throws
  before anything is written.
\<close>

definition ownAnchor :: "document \<Rightarrow> ref \<Rightarrow> bool" where
  "ownAnchor doc el \<longleftrightarrow>
     el < length (nodes doc)
     \<and> (\<exists>a c. a < length (nodes doc)
           \<and> childNodes (nodes doc ! a) = []
           \<and> className (nodes doc ! a) = Some (js ''anchorjs-link '' @ c)
           \<and> (firstChild doc el = Some a \<or> lastChild doc el = Some a))"

lemma strIndexOf_prefix: "prefix pat s \<Longrightarrow> strIndexOf s pat = 0"
  by (cases s) simp_all

lemma marker_found:
  "- 1 < strIndexOf (js '' '' @ toStr (Some (js ''anchorjs-link '' @ c)) @ js '' '') anchorMarker"
proof -
  have eq: "js '' '' @ toStr (Some (js ''anchorjs-link '' @ c)) @ js '' ''
        = anchorMarker @ c @ js '' ''"
    by (simp add: toStr_def anchorMarker_def js_def)
  have z: "strIndexOf (anchorMarker @ c @ js '' '') anchorMarker = 0"
    by (rule strIndexOf_prefix) simp
  show ?thesis unfolding eq z by simp
qed

lemma firstChild_lastChild_None:
  "firstChild doc el = None \<longleftrightarrow> lastChild doc el = None"
  by (simp add: firstChild_def lastChild_def split: list.splits)

lemma ownAnchor_hasAnchorJSLink:
  assumes "ownAnchor doc el"
  shows "hasAnchorJSLink doc el = Inr True"
proof -
  from assms obtain a c where a: "className (nodes doc ! a) = Some (js ''anchorjs-link '' @ c)"
      and fl: "firstChild doc el = Some a \<or> lastChild doc el = Some a"
    by (auto simp: ownAnchor_def)
  from fl obtain f l where f: "firstChild doc el = Some f" and l: "lastChild doc el = Some l"
    using firstChild_lastChild_None [of doc el] by (cases "firstChild doc el"; cases "lastChild doc el") auto
  from fl f l have "f = a \<or> l = a" by auto
  with f l a marker_found [of c] show ?thesis
    by (auto simp: hasAnchorJSLink_def Let_def)
qed

lemma ownAnchor_nodes:
  assumes "nodes doc1 = nodes doc"
  shows "ownAnchor doc1 el = ownAnchor doc el"
  unfolding ownAnchor_def firstChild_def lastChild_def assms ..

lemma addStep_same_or_processed:
  "stDocument (snd (addStep env x i st)) = stDocument st
   \<or> (hasAnchorJSLink (stDocument st) x = Inr False \<and> isElement (nodes (stDocument st) ! x))"
  by (auto simp: addStep_def Let_def split: sum.splits prod.splits)

lemma addElementID_nodes:
  "length (nodes (stDocument (snd (addElementID env x st)))) = length (nodes (stDocument st))"
  "r \<noteq> x \<Longrightarrow> nodes (stDocument (snd (addElementID env x st))) ! r = nodes (stDocument st) ! r"
  "childNodes (nodes (stDocument (snd (addElementID env x st))) ! x)
     = childNodes (nodes (stDocument st) ! x)"
proof -
  show "length (nodes (stDocument (snd (addElementID env x st)))) = length (nodes (stDocument st))"
    by (simp add: addElementID_def Let_def nodes_updateNode split: option.splits prod.splits)
  show "nodes (stDocument (snd (addElementID env x st))) ! r = nodes (stDocument st) ! r"
    if "r \<noteq> x"
    using that
    by (simp add: addElementID_def Let_def nodes_updateNode split: option.splits prod.splits)
  show "childNodes (nodes (stDocument (snd (addElementID env x st))) ! x)
     = childNodes (nodes (stDocument st) ! x)"
    by (cases "x < length (nodes (stDocument st))")
       (simp_all add: addElementID_def Let_def nodes_updateNode setAttribute_def
          list_update_beyond split: option.splits prod.splits)
qed

lemma addStep_processed_changes:
  assumes "hasAnchorJSLink (stDocument st) el = Inr False"
      and "isElement (nodes (stDocument st) ! el)"
      and "el < length (nodes (stDocument st))"
  shows "length (childNodes (nodes (stDocument (snd (addStep env el i st))) ! el))
           = Suc (length (childNodes (nodes (stDocument st) ! el)))"
  using assms
  by (simp add: addStep_process insertAnchor_at addElementID_nodes)

lemma addStep_length:
  "length (nodes (stDocument st)) \<le> length (nodes (stDocument (snd (addStep env x i st))))"
  using addStep_same_or_processed [of env x i st]
  by (auto simp: addStep_process length_insertAnchor addElementID_nodes)

lemma addStep_frame:
  assumes "r < length (nodes (stDocument st))" and "r \<noteq> x"
  shows "nodes (stDocument (snd (addStep env x i st))) ! r = nodes (stDocument st) ! r"
  using addStep_same_or_processed [of env x i st] assms
  by (auto simp: addStep_process insertAnchor_other addElementID_nodes)

lemma firstChild_frame:
  "nodes doc1 ! el = nodes doc ! el \<Longrightarrow> firstChild doc1 el = firstChild doc el"
  by (simp add: firstChild_def)

lemma lastChild_frame:
  "nodes doc1 ! el = nodes doc ! el \<Longrightarrow> lastChild doc1 el = lastChild doc el"
  by (simp add: lastChild_def)

lemma addStep_preserves_ownAnchor:
  assumes "ownAnchor (stDocument st) el"
  shows "ownAnchor (stDocument (snd (addStep env x i st))) el
         \<and> nodes (stDocument (snd (addStep env x i st))) ! el = nodes (stDocument st) ! el"
proof (cases "stDocument (snd (addStep env x i st)) = stDocument st")
  case True
  with assms show ?thesis by simp
next
  case False
  with addStep_same_or_processed [of env x i st]
  have notAnchored: "hasAnchorJSLink (stDocument st) x = Inr False" by simp
  let ?doc = "stDocument st" and ?doc1 = "stDocument (snd (addStep env x i st))"
  from assms obtain a c where el: "el < length (nodes ?doc)" and a: "a < length (nodes ?doc)"
      and childless: "childNodes (nodes ?doc ! a) = []"
      and cls: "className (nodes ?doc ! a) = Some (js ''anchorjs-link '' @ c)"
      and fl: "firstChild ?doc el = Some a \<or> lastChild ?doc el = Some a"
    by (auto simp: ownAnchor_def)
  from notAnchored ownAnchor_hasAnchorJSLink [OF assms] have xel: "el \<noteq> x" by auto
  from notAnchored hasAnchorJSLink_childless [OF childless] have xa: "a \<noteq> x" by auto
  have nel: "nodes ?doc1 ! el = nodes ?doc ! el" using el xel by (rule addStep_frame)
  have na: "nodes ?doc1 ! a = nodes ?doc ! a" using a xa by (rule addStep_frame)
  have len: "length (nodes ?doc) \<le> length (nodes ?doc1)" by (rule addStep_length)
  from fl have "firstChild ?doc1 el = Some a \<or> lastChild ?doc1 el = Some a"
    by (simp add: firstChild_frame [OF nel] lastChild_frame [OF nel])
  with el a len childless cls na nel show ?thesis
    unfolding ownAnchor_def
    by (intro conjI exI [of _ a] exI [of _ c]) simp_all
qed

lemma className_addAnchorNode:
  "className (addAnchorNode env o1 doc v) = Some (js ''anchorjs-link '' @ toStr (classOpt o1))"
proof -
  have "isElement (addAnchorNode env o1 doc v)"
    by (simp add: addAnchorNode_def Let_def setStyle_def setAttribute_def)
  moreover have "getAttribute (addAnchorNode env o1 doc v) ''class''
                   = Some (js ''anchorjs-link '' @ toStr (classOpt o1))"
    by (simp add: addAnchorNode_def Let_def getAttribute_setStyle getAttribute_setAttribute)
  ultimately show ?thesis by (simp add: className_def)
qed

lemma childNodes_addAnchorNode: "childNodes (addAnchorNode env o1 doc v) = []"
  by (simp add: addAnchorNode_def Let_def setStyle_def setAttribute_def)

lemma addStep_establishes_ownAnchor:
  assumes "el < length (nodes (stDocument st))"
      and "nodes (stDocument (snd (addStep env el i st))) ! el \<noteq> nodes (stDocument st) ! el"
  shows "ownAnchor (stDocument (snd (addStep env el i st))) el"
proof -
  from assms(2) addStep_same_or_processed [of env el i st]
  have p: "hasAnchorJSLink (stDocument st) el = Inr False" "isElement (nodes (stDocument st) ! el)"
    by auto
  let ?id = "addElementID env el st"
  let ?doc0 = "stDocument (snd ?id)"
  let ?o = "opts (stThis (snd ?id))"
  let ?a = "addAnchorNode env ?o ?doc0 (fst ?id)"
  let ?doc1 = "insertAnchor ?o el ?a ?doc0"
  have d: "stDocument (snd (addStep env el i st)) = ?doc1"
    by (simp add: addStep_process [OF p])
  have len0: "length (nodes ?doc0) = length (nodes (stDocument st))"
    by (rule addElementID_nodes)
  with assms(1) have el0: "el < length (nodes ?doc0)" by simp
  have new: "nodes ?doc1 ! length (nodes ?doc0) = ?a" using el0 by (rule insertAnchor_new)
  have at: "childNodes (nodes ?doc1 ! el)
              = (if placement ?o = Some Left then length (nodes ?doc0) # childNodes (nodes ?doc0 ! el)
                 else childNodes (nodes ?doc0 ! el) @ [length (nodes ?doc0)])"
    using el0 by (simp add: insertAnchor_at)
  have "firstChild ?doc1 el = Some (length (nodes ?doc0)) \<or> lastChild ?doc1 el = Some (length (nodes ?doc0))"
    by (cases "childNodes (nodes ?doc0 ! el)")
       (simp_all add: firstChild_def lastChild_def at)
  with el0 new show ?thesis
    unfolding d ownAnchor_def
    by (intro conjI exI [of _ "length (nodes ?doc0)"] exI [of _ "toStr (classOpt ?o)"])
       (simp_all add: length_insertAnchor className_addAnchorNode childNodes_addAnchorNode)
qed

lemma snd_addLoop_Cons:
  "snd (addLoop env (x # xs) i st)
     = (case fst (addStep env x i st) of
          Some e \<Rightarrow> snd (addStep env x i st)
        | None \<Rightarrow> snd (addLoop env xs (Suc i) (snd (addStep env x i st))))"
  by (cases "addStep env x i st") (simp split: option.splits)

lemma addLoop_preserves_ownAnchor:
  "ownAnchor (stDocument st) el \<Longrightarrow>
   ownAnchor (stDocument (snd (addLoop env xs i st))) el
   \<and> nodes (stDocument (snd (addLoop env xs i st))) ! el = nodes (stDocument st) ! el"
proof (induction xs arbitrary: i st)
  case Nil
  then show ?case by simp
next
  case (Cons x xs)
  from addStep_preserves_ownAnchor [OF Cons.prems, of env x i]
  have s: "ownAnchor (stDocument (snd (addStep env x i st))) el"
      "nodes (stDocument (snd (addStep env x i st))) ! el = nodes (stDocument st) ! el"
    by simp_all
  from Cons.IH [OF s(1), of "Suc i"] s show ?case
    by (simp add: snd_addLoop_Cons del: addLoop.simps split: option.splits)
qed

lemma addLoop_length:
  "length (nodes (stDocument st)) \<le> length (nodes (stDocument (snd (addLoop env xs i st))))"
proof (induction xs arbitrary: i st)
  case Nil
  show ?case by simp
next
  case (Cons x xs)
  from addStep_length [of st env x i] Cons.IH [of "snd (addStep env x i st)" "Suc i"]
  show ?case by (simp add: snd_addLoop_Cons del: addLoop.simps split: option.splits)
qed

lemma addLoop_establishes_ownAnchor:
  "el < length (nodes (stDocument st)) \<Longrightarrow>
   nodes (stDocument (snd (addLoop env xs i st))) ! el \<noteq> nodes (stDocument st) ! el \<Longrightarrow>
   ownAnchor (stDocument (snd (addLoop env xs i st))) el"
proof (induction xs arbitrary: i st)
  case Nil
  then show ?case by simp
next
  case (Cons x xs)
  let ?st1 = "snd (addStep env x i st)"
  have el1: "el < length (nodes (stDocument ?st1))"
    using Cons.prems(1) addStep_length [of st env x i] by simp
  show ?case
  proof (cases "nodes (stDocument ?st1) ! el = nodes (stDocument st) ! el")
    case True
    show ?thesis
    proof (cases "fst (addStep env x i st)")
      case (Some e)
      with True Cons.prems(2) show ?thesis by (simp add: snd_addLoop_Cons del: addLoop.simps)
    next
      case None
      with True Cons.prems(2)
      have "nodes (stDocument (snd (addLoop env xs (Suc i) ?st1))) ! el \<noteq> nodes (stDocument ?st1) ! el"
        by (simp add: snd_addLoop_Cons del: addLoop.simps)
      with Cons.IH [OF el1, of "Suc i"] None show ?thesis by (simp add: snd_addLoop_Cons del: addLoop.simps)
    qed
  next
    case False
    with addStep_frame [OF Cons.prems(1), of x env i] have "x = el" by auto
    with False Cons.prems(1) have own: "ownAnchor (stDocument ?st1) el"
      by (simp add: addStep_establishes_ownAnchor)
    from addLoop_preserves_ownAnchor [OF own, of env xs "Suc i"] own show ?thesis
      by (simp add: snd_addLoop_Cons del: addLoop.simps split: option.splits)
  qed
qed

lemma add_document:
  "snd (snd (add env this selector doc)) = doc
   \<or> (\<exists>xs st0. stDocument st0 = addBaselineStyles doc
         \<and> snd (snd (add env this selector doc)) = stDocument (snd (addLoop env xs 0 st0)))"
proof (cases "getElements env doc (effectiveSelector selector)")
  case (Inl e)
  then show ?thesis by (simp add: add_def)
next
  case (Inr xs)
  show ?thesis
  proof (cases "xs = []")
    case True
    with Inr show ?thesis by (simp add: add_def)
  next
    case False
    let ?st0 = "\<lparr> stThis = this\<lparr>opts := applyRemainingDefaultOptions (opts this)\<rparr>,
                   stIdList = existingIds env (addBaselineStyles doc), stIndexesToDrop = [],
                   stDocument = addBaselineStyles doc \<rparr>"
    from Inr False have "snd (snd (add env this selector doc)) = stDocument (snd (addLoop env xs 0 ?st0))"
      by (cases "addLoop env xs 0 ?st0") (simp add: add_def Let_def split: option.splits)
    then show ?thesis
      by (intro disjI2 exI [of _ xs] exI [of _ ?st0]) simp
  qed
qed

lemma add_preserves_ownAnchor:
  assumes "ownAnchor doc el"
  shows "nodes (snd (snd (add env this selector doc))) ! el = nodes doc ! el"
  using add_document [of env this selector doc]
proof
  assume "snd (snd (add env this selector doc)) = doc"
  then show ?thesis by simp
next
  assume "\<exists>xs st0. stDocument st0 = addBaselineStyles doc
         \<and> snd (snd (add env this selector doc)) = stDocument (snd (addLoop env xs 0 st0))"
  then obtain xs st0 where st0: "stDocument st0 = addBaselineStyles doc"
      and r: "snd (snd (add env this selector doc)) = stDocument (snd (addLoop env xs 0 st0))"
    by blast
  from st0 have n: "nodes (stDocument st0) = nodes doc" by (simp add: nodes_addBaselineStyles)
  with assms have "ownAnchor (stDocument st0) el" by (simp add: ownAnchor_nodes [OF n])
  from addLoop_preserves_ownAnchor [OF this, of env xs 0] r n show ?thesis by simp
qed

lemma add_establishes_ownAnchor:
  assumes "el < length (nodes doc)"
      and "nodes (snd (snd (add env this selector doc))) ! el \<noteq> nodes doc ! el"
  shows "ownAnchor (snd (snd (add env this selector doc))) el"
  using add_document [of env this selector doc]
proof
  assume "snd (snd (add env this selector doc)) = doc"
  with assms(2) show ?thesis by simp
next
  assume "\<exists>xs st0. stDocument st0 = addBaselineStyles doc
         \<and> snd (snd (add env this selector doc)) = stDocument (snd (addLoop env xs 0 st0))"
  then obtain xs st0 where st0: "stDocument st0 = addBaselineStyles doc"
      and r: "snd (snd (add env this selector doc)) = stDocument (snd (addLoop env xs 0 st0))"
    by blast
  from st0 have n: "nodes (stDocument st0) = nodes doc" by (simp add: nodes_addBaselineStyles)
  from assms n r have "el < length (nodes (stDocument st0))"
      "nodes (stDocument (snd (addLoop env xs 0 st0))) ! el \<noteq> nodes (stDocument st0) ! el"
    by simp_all
  then have "ownAnchor (stDocument (snd (addLoop env xs 0 st0))) el"
    by (rule addLoop_establishes_ownAnchor)
  with r show ?thesis by simp
qed

text \<open>
  C3. \<open>add\<close> changes a node of the document only by processing it: it sets its id or
  inserts its anchor. Every node that the first \<open>add\<close> changed is, after a second \<open>add\<close> with
  the same selector, what it was after the first: it has no second anchor and its
  attributes, the id among them, are the same. This holds whether or not either call
  throws.
\<close>

theorem second_scan_leaves_anchored_untouched:
  assumes "el < length (nodes doc)"
      and "add env this selector doc = (r1, this1, doc1)"
      and "nodes doc1 ! el \<noteq> nodes doc ! el"
      and "add env this1 selector doc1 = (r2, this2, doc2)"
  shows "nodes doc2 ! el = nodes doc1 ! el"
proof -
  from assms(2) have d1: "doc1 = snd (snd (add env this selector doc))" by simp
  from assms(4) have d2: "doc2 = snd (snd (add env this1 selector doc1))" by simp
  from assms(1,3) have "ownAnchor doc1 el"
    unfolding d1 by (rule add_establishes_ownAnchor)
  then show ?thesis unfolding d2 by (rule add_preserves_ownAnchor)
qed

theorem second_scan_witness:
  "nodes (snd (snd (add sampleEnv (newAnchor None) (Some (NodeArray [4])) introDoc))) ! 4
     \<noteq> nodes introDoc ! 4
   \<and> nodes (snd (snd (add sampleEnv
               (fst (snd (add sampleEnv (newAnchor None) (Some (NodeArray [4])) introDoc)))
               (Some (NodeArray [4]))
               (snd (snd (add sampleEnv (newAnchor None) (Some (NodeArray [4])) introDoc)))))) ! 4
     = nodes (snd (snd (add sampleEnv (newAnchor None) (Some (NodeArray [4])) introDoc))) ! 4
   \<and> childNodes (nodes (snd (snd (add sampleEnv (newAnchor None) (Some (NodeArray [4])) introDoc))) ! 4)
     = [5, 6]"
proof -
  let ?s1 = "add sampleEnv (newAnchor None) (Some (NodeArray [4])) introDoc"
  let ?s2 = "add sampleEnv (fst (snd ?s1)) (Some (NodeArray [4])) (snd (snd ?s1))"
  have h1: "4 < length (nodes introDoc)" by code_simp
  have h2: "?s1 = (fst ?s1, fst (snd ?s1), snd (snd ?s1))" by simp
  have h3: "nodes (snd (snd ?s1)) ! 4 \<noteq> nodes introDoc ! 4" by code_simp
  have h4: "?s2 = (fst ?s2, fst (snd ?s2), snd (snd ?s2))" by simp
  have c: "childNodes (nodes (snd (snd ?s1)) ! 4) = [5, 6]" by code_simp
  from second_scan_leaves_anchored_untouched [OF h1 h2 h3 h4] h3 c show ?thesis by simp
qed

end
